theory Spec2Isabelle
  imports Complex_Main "HOL-Library.Multiset" "HOL-Library.List_Lexorder" "HOL-Library.Char_ord"
begin

section \<open>JavaScript values used by the application\<close>

text \<open>
  A JavaScript Number is a binary64 float. The model keeps its four kinds of value apart:
  \<open>NaN\<close>, the two infinities, and the finite numbers, which are taken as real numbers.
  Finite arithmetic is exact here (rounding to binary64, and to the 32-bit floats of a
  tensor, is not modelled). Where the program compares two numbers it subtracts them, and
  the sign of a binary64 difference of two finite numbers is the sign of the exact
  difference. \<open>+0\<close> and \<open>-0\<close> are one value, as they are for \<open>Map\<close> and \<open>Set\<close> keys
  (SameValueZero) and for comparison.
\<close>

datatype jsnum = NaN | NegInf | Fin real | PosInf

text \<open>\<open>a - b\<close> on Numbers.\<close>

fun jsub :: "jsnum \<Rightarrow> jsnum \<Rightarrow> jsnum" where
  "jsub NaN b = NaN"
| "jsub a NaN = NaN"
| "jsub (Fin a) (Fin b) = Fin (a - b)"
| "jsub (Fin a) PosInf = NegInf"
| "jsub (Fin a) NegInf = PosInf"
| "jsub PosInf PosInf = NaN"
| "jsub PosInf b = PosInf"
| "jsub NegInf NegInf = NaN"
| "jsub NegInf b = NegInf"

text \<open>\<open>a / d\<close> for a finite divisor \<open>d > 0\<close> (the program divides by the literal 100 only).\<close>

fun jdiv_pos :: "jsnum \<Rightarrow> real \<Rightarrow> jsnum" where
  "jdiv_pos (Fin a) d = Fin (a / d)"
| "jdiv_pos a d = a"

text \<open>\<open>a >= b\<close> on Numbers: false as soon as one side is \<open>NaN\<close>.\<close>

fun jge :: "jsnum \<Rightarrow> jsnum \<Rightarrow> bool" where
  "jge NaN b = False"
| "jge a NaN = False"
| "jge PosInf b = True"
| "jge a NegInf = True"
| "jge (Fin a) (Fin b) = (b \<le> a)"
| "jge a b = False"

text \<open>\<open>v > 0\<close>, and the truthiness of a Number (\<open>NaN\<close> and zero are falsy).\<close>

fun jpos :: "jsnum \<Rightarrow> bool" where
  "jpos PosInf = True"
| "jpos (Fin r) = (0 < r)"
| "jpos v = False"

fun truthy :: "jsnum \<Rightarrow> bool" where
  "truthy NaN = False"
| "truthy (Fin r) = (r \<noteq> 0)"
| "truthy v = True"

text \<open>\<open>x || y\<close> on Numbers.\<close>

definition jor :: "jsnum \<Rightarrow> jsnum \<Rightarrow> jsnum" where
  "jor x y = (if truthy x then x else y)"

subsection \<open>Map and Set\<close>

text \<open>
  A JavaScript \<open>Map\<close> keeps its entries in insertion order, and \<open>forEach\<close>,
  \<open>values()\<close> and \<open>size\<close> observe that order: it is an association list with
  distinct keys. \<open>set\<close> on a key already present replaces the value in place.
\<close>

type_synonym ('k, 'v) jsmap = "('k \<times> 'v) list"

definition map_get :: "('k, 'v) jsmap \<Rightarrow> 'k \<Rightarrow> 'v option" where
  "map_get m k = map_of m k"

definition map_has :: "('k, 'v) jsmap \<Rightarrow> 'k \<Rightarrow> bool" where
  "map_has m k = (map_get m k \<noteq> None)"

fun map_set :: "'k \<Rightarrow> 'v \<Rightarrow> ('k, 'v) jsmap \<Rightarrow> ('k, 'v) jsmap" where
  "map_set k v [] = [(k, v)]"
| "map_set k v ((a, b) # ps) = (if a = k then (k, v) # ps else (a, b) # map_set k v ps)"

definition map_size :: "('k, 'v) jsmap \<Rightarrow> nat" where
  "map_size m = length m"

definition map_keys :: "('k, 'v) jsmap \<Rightarrow> 'k list" where
  "map_keys m = map fst m"

definition map_values :: "('k, 'v) jsmap \<Rightarrow> 'v list" where
  "map_values m = map snd m"

text \<open>A \<open>Set\<close> is the list of its elements in insertion order; \<open>new Set(array)\<close> adds
  the elements of the array one by one, and \<open>Array.from\<close> reads them back in that order.\<close>

definition set_add :: "'a \<Rightarrow> 'a list \<Rightarrow> 'a list" where
  "set_add x xs = (if x \<in> set xs then xs else xs @ [x])"

definition set_from :: "'a list \<Rightarrow> 'a list" where
  "set_from xs = fold set_add xs []"

text \<open>\<open>array.forEach((x, index) => ...)\<close> threading the state the callback mutates.\<close>

definition forEach_indexed :: "('a \<Rightarrow> nat \<Rightarrow> 's \<Rightarrow> 's) \<Rightarrow> 'a list \<Rightarrow> 's \<Rightarrow> 's" where
  "forEach_indexed f xs st = fold (\<lambda>(i, x). f x i) (enumerate 0 xs) st"

subsection \<open>Array.prototype.sort with a comparator\<close>

text \<open>
  \<open>sort(cmp)\<close> is stable, places \<open>x\<close> after \<open>y\<close> only when \<open>cmp(x, y) > 0\<close>, and
  reads a \<open>NaN\<close> result of the comparator as \<open>+0\<close>. For a consistent comparator the
  result is the one stable sorted arrangement, which insertion from the right computes.
  (For an inconsistent comparator the language leaves the order to the engine; the
  theorems about order below are stated for inputs on which the comparator is consistent.)
\<close>

fun insort_cmp :: "('a \<Rightarrow> 'a \<Rightarrow> jsnum) \<Rightarrow> 'a \<Rightarrow> 'a list \<Rightarrow> 'a list" where
  "insort_cmp cmp x [] = [x]"
| "insort_cmp cmp x (y # ys) =
     (if jpos (cmp x y) then y # insort_cmp cmp x ys else x # y # ys)"

definition js_sort :: "('a \<Rightarrow> 'a \<Rightarrow> jsnum) \<Rightarrow> 'a list \<Rightarrow> 'a list" where
  "js_sort cmp xs = foldr (insort_cmp cmp) xs []"

section \<open>The application state\<close>

record interaction =
  userId :: jsnum
  itemId :: jsnum
  rating :: jsnum
  timestamp :: jsnum

text \<open>\<open>year\<close> is \<open>null\<close> (\<open>None\<close>) when the title has no year suffix.\<close>

record item =
  title :: string
  year :: "jsnum option"
  genres :: "jsnum list"

text \<open>\<open>occupation\<close> is \<open>undefined\<close> (\<open>None\<close>) when the user line has fewer than four fields.\<close>

record user =
  age :: jsnum
  gender :: nat
  occupation :: "string option"

record config =
  maxInteractions :: nat
  embeddingDim :: nat
  batchSize :: nat
  epochs :: nat
  learningRate :: real

text \<open>The exceptions: a TypeError of the language, a rejected fetch, and the two errors of
  the tensor library, for an argument it refuses and for a tensor used after its release.\<close>

datatype js_error = TypeError | NetworkError | TensorError | TensorDisposed

text \<open>The text of the status line; the numbers of a template string are kept as numbers.\<close>

datatype status =
    ClickLoadToStart
  | LoadingData
  | Loaded nat nat nat
  | ErrorLoadingData js_error
  | InitializingModels
  | StartingTraining
  | EpochBatch nat nat nat jsnum jsnum
  | EpochDone nat jsnum jsnum
  | TrainingCompleted
  | ComputingVisualization
  | ErrorInVisualization js_error

text \<open>
  The fields of \<open>MovieLensApp\<close>, then the three DOM properties the methods below write:
  the status text and the \<open>disabled\<close> flags of the train and test buttons. The type
  \<open>'m\<close> is that of a model object of the tensor library.
\<close>

record 'm app =
  interactions :: "interaction list"
  items :: "(jsnum, item) jsmap"
  users :: "(jsnum, user) jsmap"
  occupationVocab :: "(string option, nat) jsmap"
  userMap :: "(jsnum, nat) jsmap"
  itemMap :: "(jsnum, nat) jsmap"
  reverseUserMap :: "(nat, jsnum) jsmap"
  reverseItemMap :: "(nat, jsnum) jsmap"
  userTopRated :: "(jsnum, interaction list) jsmap"
  qualifiedUsers :: "jsnum list"
  simpleModel :: "'m option"
  deepModel :: "'m option"
  config :: config
  lossHistory :: "jsnum list"
  isTraining :: bool
  statusText :: status
  trainDisabled :: bool
  testDisabled :: bool

section \<open>createMappings and findQualifiedUsers\<close>

text \<open>The callback of the two \<open>forEach\<close> loops that fill a map and its reverse.\<close>

definition set_both ::
  "jsnum \<Rightarrow> nat \<Rightarrow> (jsnum, nat) jsmap \<times> (nat, jsnum) jsmap \<Rightarrow> (jsnum, nat) jsmap \<times> (nat, jsnum) jsmap" where
  "set_both rawId index = (\<lambda>(fwd, bwd). (map_set rawId index fwd, map_set index rawId bwd))"

text \<open>The body of the loop that groups the interactions by user.\<close>

definition push_interaction ::
  "interaction \<Rightarrow> (jsnum, interaction list) jsmap \<Rightarrow> (jsnum, interaction list) jsmap" where
  "push_interaction i m =
     (let u = userId i;
          m1 = (if \<not> map_has m u then map_set u [] m else m)
      in case map_get m1 u of
           Some h \<Rightarrow> map_set u (h @ [i]) m1
         | None \<Rightarrow> m1)"

text \<open>\<open>(a, b) => b.rating - a.rating || b.timestamp - a.timestamp\<close>\<close>

definition cmpTopRated :: "interaction \<Rightarrow> interaction \<Rightarrow> jsnum" where
  "cmpTopRated a b = jor (jsub (rating b) (rating a)) (jsub (timestamp b) (timestamp a))"

definition createMappings :: "'m app \<Rightarrow> 'm app" where
  "createMappings s =
     (let userSet = set_from (map userId (interactions s));
          itemSet = set_from (map itemId (interactions s));
          (um, rum) = forEach_indexed set_both userSet (userMap s, reverseUserMap s);
          (im, rim) = forEach_indexed set_both itemSet (itemMap s, reverseItemMap s);
          userInteractions = fold push_interaction (interactions s) [];
          sortedInteractions = map (\<lambda>(u, h). (u, js_sort cmpTopRated h)) userInteractions
      in s\<lparr>userMap := um, reverseUserMap := rum, itemMap := im, reverseItemMap := rim,
            userTopRated := sortedInteractions\<rparr>)"

definition findQualifiedUsers :: "'m app \<Rightarrow> 'm app" where
  "findQualifiedUsers s =
     s\<lparr>qualifiedUsers := map fst (filter (\<lambda>(u, h). 20 \<le> length h) (userTopRated s))\<rparr>"

text \<open>The hypothesis under which the comparator above is a consistent order.\<close>

definition numeric :: "interaction \<Rightarrow> bool" where
  "numeric i \<longleftrightarrow> rating i \<noteq> NaN \<and> timestamp i \<noteq> NaN"

section \<open>Strings: trim, split, parseInt, parseFloat\<close>

text \<open>
  Strings are byte strings. The white space that \<open>trim\<close>, \<open>parseInt\<close> and
  \<open>parseFloat\<close> skip is the ASCII part of the language's white space and line
  terminators: TAB, LF, VT, FF, CR and SP.
\<close>

definition js_isspace :: "char \<Rightarrow> bool" where
  "js_isspace c = (c \<in> set [CHR 0x09, CHR 0x0A, CHR 0x0B, CHR 0x0C, CHR 0x0D, CHR 0x20])"

definition js_trimStart :: "string \<Rightarrow> string" where
  "js_trimStart str = dropWhile js_isspace str"

definition js_trim :: "string \<Rightarrow> string" where
  "js_trim str = rev (dropWhile js_isspace (rev (dropWhile js_isspace str)))"

text \<open>\<open>str.split(sep)\<close> for a one-character separator: the result is never empty,
  and the empty string splits into one empty field.\<close>

fun js_split :: "char \<Rightarrow> string \<Rightarrow> string list" where
  "js_split sep [] = [[]]"
| "js_split sep (c # cs) =
     (if c = sep then [] # js_split sep cs
      else (case js_split sep cs of
              h # t \<Rightarrow> (c # h) # t
            | [] \<Rightarrow> [[c]]))"

text \<open>\<open>array[i]\<close> read, \<open>undefined\<close> out of range; this is also what array
  destructuring binds a missing position to.\<close>

definition js_nth :: "'a list \<Rightarrow> nat \<Rightarrow> 'a option" where
  "js_nth xs i = (if i < length xs then Some (xs ! i) else None)"

text \<open>\<open>array[i] = v\<close>: beyond the end the array grows, the positions in between are
  holes, which read as \<open>undefined\<close> (\<open>None\<close>).\<close>

definition js_array_set :: "'a option list \<Rightarrow> nat \<Rightarrow> 'a option \<Rightarrow> 'a option list" where
  "js_array_set xs i v =
     (if i < length xs then xs[i := v] else xs @ replicate (i - length xs) None @ [v])"

text \<open>\<open>ToString\<close> of a string or \<open>undefined\<close>.\<close>

definition js_ToString :: "string option \<Rightarrow> string" where
  "js_ToString arg = (case arg of None \<Rightarrow> ''undefined'' | Some str \<Rightarrow> str)"

definition is_digit :: "nat \<Rightarrow> char \<Rightarrow> bool" where
  "is_digit radix c =
     (let n = (of_char c :: nat)
      in (48 \<le> n \<and> n \<le> 57) \<or>
         (radix = 16 \<and> ((97 \<le> n \<and> n \<le> 102) \<or> (65 \<le> n \<and> n \<le> 70))))"

definition digit_val :: "char \<Rightarrow> nat" where
  "digit_val c =
     (let n = (of_char c :: nat)
      in if n \<le> 57 then n - 48 else if 97 \<le> n then n - 87 else n - 55)"

definition digits_value :: "nat \<Rightarrow> string \<Rightarrow> nat" where
  "digits_value radix ds = foldl (\<lambda>acc c. acc * radix + digit_val c) 0 ds"

text \<open>A leading sign: whether it is \<open>-\<close>, and the rest.\<close>

definition strip_sign :: "string \<Rightarrow> bool \<times> string" where
  "strip_sign str =
     (case str of
        [] \<Rightarrow> (False, str)
      | c # r \<Rightarrow> if c = CHR ''-'' then (True, r) else if c = CHR ''+'' then (False, r) else (False, str))"

definition signed :: "bool \<Rightarrow> real \<Rightarrow> real" where
  "signed neg r = (if neg then - r else r)"

text \<open>
  \<open>parseInt(arg)\<close> with no radix: skip white space, read a sign, switch to radix 16 after
  \<open>0x\<close> or \<open>0X\<close>, read the longest run of digits; \<open>NaN\<close> when that run is empty.
  The value is the exact integer (the language rounds an integer above \<open>2^53\<close>).
\<close>

definition parseInt :: "string option \<Rightarrow> jsnum" where
  "parseInt arg =
     (let (neg, s1) = strip_sign (js_trimStart (js_ToString arg));
          (radix, s2) =
             (case s1 of
                c0 # cx # r \<Rightarrow>
                  if c0 = CHR ''0'' \<and> (cx = CHR ''x'' \<or> cx = CHR ''X'') then (16, r) else (10, s1)
              | _ \<Rightarrow> (10, s1));
          z = takeWhile (is_digit radix) s2
      in if z = [] then NaN else Fin (signed neg (of_nat (digits_value radix z))))"

text \<open>The exponent part that may follow a mantissa: \<open>e\<close> or \<open>E\<close>, a sign, at least
  one digit; anything else is no exponent.\<close>

definition exponent_part :: "string \<Rightarrow> int" where
  "exponent_part str =
     (case str of
        [] \<Rightarrow> 0
      | c # r \<Rightarrow>
          if c = CHR ''e'' \<or> c = CHR ''E'' then
            (let (eneg, r1) = strip_sign r;
                 de = takeWhile (is_digit 10) r1
             in if de = [] then 0
                else if eneg then - int (digits_value 10 de) else int (digits_value 10 de))
          else 0)"

definition pow10 :: "int \<Rightarrow> real" where
  "pow10 e = (if 0 \<le> e then 10 ^ nat e else 1 / 10 ^ nat (- e))"

text \<open>
  \<open>parseFloat(arg)\<close>: skip white space, then read the longest prefix that is a decimal
  literal: a sign, then \<open>Infinity\<close> or digits with an optional fraction and exponent.
  The value is the exact decimal (the language rounds it to binary64).
\<close>

definition parseFloat :: "string option \<Rightarrow> jsnum" where
  "parseFloat arg =
     (let (neg, s1) = strip_sign (js_trimStart (js_ToString arg))
      in if take 8 s1 = ''Infinity'' then (if neg then NegInf else PosInf)
         else
           (let d1 = takeWhile (is_digit 10) s1;
                r1 = dropWhile (is_digit 10) s1;
                (d2, r2) =
                   (case r1 of
                      [] \<Rightarrow> ([], r1)
                    | c # r \<Rightarrow>
                        if c = CHR ''.'' then (takeWhile (is_digit 10) r, dropWhile (is_digit 10) r)
                        else ([], r1))
            in if d1 = [] \<and> d2 = [] then NaN
               else Fin (signed neg
                      (of_nat (digits_value 10 (d1 @ d2)) / 10 ^ length d2
                         * pow10 (exponent_part r2)))))"

section \<open>loadData\<close>

text \<open>One line of \<open>u.data\<close>: the four tab-separated fields, each parsed on its own.\<close>

definition parseInteractionLine :: "string \<Rightarrow> interaction" where
  "parseInteractionLine line =
     (let fields = js_split (CHR 0x09) line
      in \<lparr>userId = parseInt (js_nth fields 0), itemId = parseInt (js_nth fields 1),
          rating = parseFloat (js_nth fields 2), timestamp = parseInt (js_nth fields 3)\<rparr>)"

definition parseInteractions :: "nat \<Rightarrow> string \<Rightarrow> interaction list" where
  "parseInteractions maxI txt =
     map parseInteractionLine (take maxI (js_split (CHR 0x0A) (js_trim txt)))"

text \<open>The match of the regular expression \<^verbatim>\<open>/\((\d{4})\)$/\<close>: the four digits when the
  title ends with a year in parentheses.\<close>

definition yearMatch :: "string \<Rightarrow> string option" where
  "yearMatch t =
     (case rev t of
        c6 # d4 # d3 # d2 # d1 # c1 # _ \<Rightarrow>
          if c6 = CHR '')'' \<and> c1 = CHR ''('' \<and> list_all (is_digit 10) [d1, d2, d3, d4]
          then Some [d1, d2, d3, d4] else None
      | _ \<Rightarrow> None)"

text \<open>The title with that suffix replaced by the empty string.\<close>

definition stripYear :: "string \<Rightarrow> string" where
  "stripYear t = (if yearMatch t = None then t else take (length t - 6) t)"

text \<open>One line of \<open>u.item\<close>. The title is \<open>undefined\<close> when the line has no \<open>|\<close>, and
  \<open>title.match\<close> then throws a TypeError.\<close>

definition parseItemLine :: "string \<Rightarrow> js_error + jsnum \<times> item" where
  "parseItemLine line =
     (let parts = js_split (CHR ''|'') line;
          iid = parseInt (js_nth parts 0)
      in case js_nth parts 1 of
           None \<Rightarrow> Inl TypeError
         | Some t \<Rightarrow>
             Inr (iid, \<lparr>title = js_trim (stripYear t),
                        year = (case yearMatch t of None \<Rightarrow> None | Some ds \<Rightarrow> Some (parseInt (Some ds))),
                        genres = map (\<lambda>g. parseInt (Some g)) (drop 5 parts)\<rparr>))"

text \<open>The \<open>forEach\<close> over the item lines writes \<open>this.items\<close> line by line; an exception
  stops it and leaves what was written so far.\<close>

fun parseItems ::
  "string list \<Rightarrow> (jsnum, item) jsmap \<Rightarrow> js_error option \<times> (jsnum, item) jsmap" where
  "parseItems [] m = (None, m)"
| "parseItems (l # ls) m =
     (case parseItemLine l of
        Inl e \<Rightarrow> (Some e, m)
      | Inr (k, it) \<Rightarrow> parseItems ls (map_set k it m))"

text \<open>One line of \<open>u.user\<close>, acting on \<open>this.users\<close> and the local set of occupations.\<close>

definition parseUserLine ::
  "string \<Rightarrow> (jsnum, user) jsmap \<times> string option list \<Rightarrow> (jsnum, user) jsmap \<times> string option list" where
  "parseUserLine line =
     (\<lambda>(us, occupations).
        let fields = js_split (CHR ''|'') line;
            occ = js_nth fields 3
        in (map_set (parseInt (js_nth fields 0))
              \<lparr>age = jdiv_pos (parseInt (js_nth fields 1)) 100,
               gender = (if js_nth fields 2 = Some ''M'' then 1 else 0),
               occupation = occ\<rparr> us,
            set_add occ occupations))"

text \<open>\<open>array.sort()\<close> on strings and \<open>undefined\<close>: the strings in code-unit order, then
  the \<open>undefined\<close> elements.\<close>

definition js_sort_default :: "string option list \<Rightarrow> string option list" where
  "js_sort_default xs = map Some (sort [str. Some str \<leftarrow> xs]) @ filter (\<lambda>x. x = None) xs"

text \<open>What the three fetches and the three \<open>text()\<close> calls deliver: the three texts, or
  the rejection of one of the promises.\<close>

datatype fetched = FetchFailed js_error | Fetched string string string

definition loadData :: "fetched \<Rightarrow> 'm app \<Rightarrow> 'm app" where
  "loadData f s0 =
     (let s = s0\<lparr>statusText := LoadingData\<rparr>
      in case f of
           FetchFailed e \<Rightarrow> s\<lparr>statusText := ErrorLoadingData e\<rparr>
         | Fetched interactionsText itemsText usersText \<Rightarrow>
             (let s1 = s\<lparr>interactions :=
                          parseInteractions (maxInteractions (config s)) interactionsText\<rparr>;
                  (err, its) = parseItems (js_split (CHR 0x0A) (js_trim itemsText)) (items s1);
                  s2 = s1\<lparr>items := its\<rparr>
              in case err of
                   Some e \<Rightarrow> s2\<lparr>statusText := ErrorLoadingData e\<rparr>
                 | None \<Rightarrow>
                     (let (us, occupations) =
                            fold parseUserLine (js_split (CHR 0x0A) (js_trim usersText)) (users s2, []);
                          s3 = s2\<lparr>users := us\<rparr>;
                          s4 = s3\<lparr>occupationVocab :=
                                    forEach_indexed map_set (js_sort_default occupations)
                                      (occupationVocab s3)\<rparr>;
                          s5 = findQualifiedUsers (createMappings s4)
                      in s5\<lparr>statusText := Loaded (length (interactions s5)) (map_size (items s5))
                                               (map_size (users s5)),
                            trainDisabled := False\<rparr>)))"

text \<open>The state the constructor builds; the two arguments are the \<open>disabled\<close> attributes
  the page gives the train and test buttons.\<close>

definition new_app :: "bool \<Rightarrow> bool \<Rightarrow> 'm app" where
  "new_app trainOff testOff =
     \<lparr>interactions = [], items = [], users = [], occupationVocab = [],
      userMap = [], itemMap = [], reverseUserMap = [], reverseItemMap = [],
      userTopRated = [], qualifiedUsers = [], simpleModel = None, deepModel = None,
      config = \<lparr>maxInteractions = 80000, embeddingDim = 32, batchSize = 512, epochs = 15,
                learningRate = 1 / 1000\<rparr>,
      lossHistory = [], isTraining = False, statusText = ClickLoadToStart,
      trainDisabled = trainOff, testDisabled = testOff\<rparr>"

section \<open>getUserFeatures\<close>

text \<open>\<open>user.occupation\<close> on a missing record throws a TypeError. The elements of the
  result are Numbers, or \<open>undefined\<close> where the one-hot array has a hole.\<close>

definition getUserFeatures :: "'m app \<Rightarrow> jsnum \<Rightarrow> js_error + jsnum option list" where
  "getUserFeatures s uid =
     (case map_get (users s) uid of
        None \<Rightarrow> Inl TypeError
      | Some u \<Rightarrow>
          (let occupationIndex = map_get (occupationVocab s) (occupation u);
               zeros = replicate (map_size (occupationVocab s)) (Some (Fin 0));
               occupationOneHot =
                 (case occupationIndex of
                    None \<Rightarrow> zeros
                  | Some i \<Rightarrow> js_array_set zeros i (Some (Fin 1)))
           in Inr (Some (age u) # Some (Fin (of_nat (gender u))) # occupationOneHot)))"

text \<open>The invariant of the vocabulary: every index is below its size.\<close>

definition vocab_ok :: "(string option, nat) jsmap \<Rightarrow> bool" where
  "vocab_ok v = list_all (\<lambda>(occ, i). i < map_size v) v"

section \<open>Arithmetic on Numbers, and tensors\<close>

text \<open>
  Addition, multiplication, division, square root, the rectifier \<open>max(x, 0)\<close>,
  \<open>Math.ceil\<close> and \<open>a < b\<close>, with the special values as IEEE 754 has them and exact
  finite results. A zero divisor is \<open>+0\<close>: the program divides by a norm and by a batch
  size, which are never \<open>-0\<close>.
\<close>

fun jadd :: "jsnum \<Rightarrow> jsnum \<Rightarrow> jsnum" where
  "jadd NaN b = NaN"
| "jadd a NaN = NaN"
| "jadd (Fin a) (Fin b) = Fin (a + b)"
| "jadd PosInf NegInf = NaN"
| "jadd NegInf PosInf = NaN"
| "jadd PosInf b = PosInf"
| "jadd NegInf b = NegInf"
| "jadd a PosInf = PosInf"
| "jadd a NegInf = NegInf"

fun jmul :: "jsnum \<Rightarrow> jsnum \<Rightarrow> jsnum" where
  "jmul NaN b = NaN"
| "jmul a NaN = NaN"
| "jmul (Fin a) (Fin b) = Fin (a * b)"
| "jmul (Fin a) PosInf = (if a = 0 then NaN else if 0 < a then PosInf else NegInf)"
| "jmul (Fin a) NegInf = (if a = 0 then NaN else if 0 < a then NegInf else PosInf)"
| "jmul PosInf (Fin b) = (if b = 0 then NaN else if 0 < b then PosInf else NegInf)"
| "jmul NegInf (Fin b) = (if b = 0 then NaN else if 0 < b then NegInf else PosInf)"
| "jmul PosInf PosInf = PosInf"
| "jmul PosInf NegInf = NegInf"
| "jmul NegInf PosInf = NegInf"
| "jmul NegInf NegInf = PosInf"

fun jdiv :: "jsnum \<Rightarrow> jsnum \<Rightarrow> jsnum" where
  "jdiv NaN b = NaN"
| "jdiv a NaN = NaN"
| "jdiv (Fin a) (Fin b) =
     (if b = 0 then (if a = 0 then NaN else if 0 < a then PosInf else NegInf) else Fin (a / b))"
| "jdiv (Fin a) b = Fin 0"
| "jdiv PosInf (Fin b) = (if 0 \<le> b then PosInf else NegInf)"
| "jdiv NegInf (Fin b) = (if 0 \<le> b then NegInf else PosInf)"
| "jdiv a b = NaN"

fun jsqrt :: "jsnum \<Rightarrow> jsnum" where
  "jsqrt (Fin a) = (if 0 \<le> a then Fin (sqrt a) else NaN)"
| "jsqrt PosInf = PosInf"
| "jsqrt a = NaN"

fun jrelu :: "jsnum \<Rightarrow> jsnum" where
  "jrelu (Fin a) = Fin (max a 0)"
| "jrelu NegInf = Fin 0"
| "jrelu a = a"

fun jceil :: "jsnum \<Rightarrow> jsnum" where
  "jceil (Fin a) = Fin (of_int \<lceil>a\<rceil>)"
| "jceil a = a"

fun jlt :: "jsnum \<Rightarrow> jsnum \<Rightarrow> bool" where
  "jlt NaN b = False"
| "jlt a NaN = False"
| "jlt (Fin a) (Fin b) = (a < b)"
| "jlt NegInf NegInf = False"
| "jlt NegInf b = True"
| "jlt a PosInf = (a \<noteq> PosInf)"
| "jlt a b = False"

text \<open>A tensor of rank 2 is the list of its rows; a row, or a tensor of rank 1, is a list
  of Numbers.\<close>

type_synonym matrix = "jsnum list list"

text \<open>Errors propagate: the second step runs on the value of the first, if it has one.\<close>

definition and_then :: "js_error + 'a \<Rightarrow> ('a \<Rightarrow> js_error + 'b) \<Rightarrow> js_error + 'b" where
  "and_then r f = (case r of Inl e \<Rightarrow> Inl e | Inr x \<Rightarrow> f x)"

text \<open>\<open>array.map(f)\<close> for a callback that may throw: the first exception ends the map.\<close>

fun map_throwing :: "('a \<Rightarrow> js_error + 'b) \<Rightarrow> 'a list \<Rightarrow> js_error + 'b list" where
  "map_throwing f [] = Inr []"
| "map_throwing f (x # xs) =
     (case f x of
        Inl e \<Rightarrow> Inl e
      | Inr y \<Rightarrow> (case map_throwing f xs of Inl e \<Rightarrow> Inl e | Inr ys \<Rightarrow> Inr (y # ys)))"

subsection \<open>The operations of the tensor library\<close>

text \<open>The sum of a row, and the dot product of two rows of one length.\<close>

definition jsum :: "jsnum list \<Rightarrow> jsnum" where
  "jsum xs = foldl jadd (Fin 0) xs"

definition dot :: "jsnum list \<Rightarrow> jsnum list \<Rightarrow> jsnum" where
  "dot a b = jsum (map (\<lambda>(x, y). jmul x y) (zip a b))"

text \<open>
  Modelled from the spec: \<open>tf.gather(table, indices)\<close>, of the tensor library, is not in the
  repository. Section 4.3 has it as a row gather: the result has the row of the table at
  each index. An index that is \<open>undefined\<close> or outside the table has no row, and the
  model lets the call throw there.
\<close>

definition tf_gather :: "matrix \<Rightarrow> nat option list \<Rightarrow> js_error + matrix" where
  "tf_gather table indices =
     map_throwing
       (\<lambda>i. case i of
               None \<Rightarrow> Inl TensorError
             | Some k \<Rightarrow> if k < length table then Inr (table ! k) else Inl TensorError)
       indices"

text \<open>
  Modelled from the spec: \<open>tf.tensor2d(values)\<close>, of the tensor library, is not in the
  repository. It makes the feature rows of section 4.4 a tensor: the rows must be there,
  at least one, and of one length; an entry that is \<open>undefined\<close> converts to \<open>NaN\<close>.
\<close>

definition tf_tensor2d :: "jsnum option list list option \<Rightarrow> js_error + matrix" where
  "tf_tensor2d values =
     (case values of
        None \<Rightarrow> Inl TensorError
      | Some [] \<Rightarrow> Inl TensorError
      | Some (r # rs) \<Rightarrow>
          if list_all (\<lambda>q. length q = length r) rs
          then Inr (map (map (\<lambda>v. case v of None \<Rightarrow> NaN | Some x \<Rightarrow> x)) (r # rs))
          else Inl TensorError)"

text \<open>
  Modelled from the spec: \<open>tf.concat([a, b], 1)\<close>, of the tensor library, is not in the
  repository. Section 4.4: each row of \<open>a\<close> is concatenated with the corresponding row of
  \<open>b\<close>; the two must have as many rows.
\<close>

definition tf_concat :: "matrix \<Rightarrow> matrix \<Rightarrow> js_error + matrix" where
  "tf_concat a b =
     (if length a = length b then Inr (map (\<lambda>(x, y). x @ y) (zip a b)) else Inl TensorError)"

text \<open>
  Modelled from the spec: a layer of \<open>tf.layers.dense\<close>, of the tensor library, is not in the
  repository. Section 4.4: a weight and bias pair with an optional ReLU; \<open>apply\<close> maps a
  row \<open>x\<close> to \<open>x K + b\<close>, rectified when the layer has the activation. The kernel \<open>K\<close> has
  one row for each input and one column for each unit.
\<close>

record dense =
  kernel :: matrix
  bias :: "jsnum list"
  relu :: bool

definition dense_row :: "dense \<Rightarrow> jsnum list \<Rightarrow> jsnum list" where
  "dense_row d x =
     map (\<lambda>j. (if relu d then jrelu else (\<lambda>v. v))
                 (jadd (dot x (map (\<lambda>krow. krow ! j) (kernel d))) (bias d ! j)))
       [0..<length (bias d)]"

definition dense_apply :: "dense \<Rightarrow> matrix \<Rightarrow> js_error + matrix" where
  "dense_apply d input =
     (if list_all (\<lambda>krow. length krow = length (bias d)) (kernel d) \<and>
         list_all (\<lambda>x. length x = length (kernel d)) input
      then Inr (map (dense_row d) input)
      else Inl TensorError)"

text \<open>
  Modelled from the spec: \<open>tf.linalg.l2Normalize(x, -1)\<close>, of the tensor library, is not in
  the repository. Section 4.4: each output row is normalised to unit length in the L2
  norm, that is, every entry is divided by the norm of its row. The division is the one
  of Numbers, so a row of zeros, whose norm is 0, becomes a row of \<open>NaN\<close>.
\<close>

definition l2norm :: "jsnum list \<Rightarrow> jsnum" where
  "l2norm r = jsqrt (jsum (map (\<lambda>x. jmul x x) r))"

definition l2NormalizeRow :: "jsnum list \<Rightarrow> jsnum list" where
  "l2NormalizeRow r = map (\<lambda>x. jdiv x (l2norm r)) r"

definition tf_l2Normalize :: "matrix \<Rightarrow> matrix" where
  "tf_l2Normalize m = map l2NormalizeRow m"



text \<open>
  Modelled from the spec: \<open>tf.matMul\<close>, \<open>squeeze\<close> and \<open>expandDims\<close>, of the tensor library,
  are not in the repository. Section 4.5 has the logits as the product of the user rows
  with the transposed item rows, entry \<open>(i, j)\<close> the dot product of user row \<open>i\<close> and item
  row \<open>j\<close>; section 4.6 has each score as the dot product of the one user row with an
  item row. The rows must be of one length.
\<close>

definition tf_matMul_transposed :: "matrix \<Rightarrow> matrix \<Rightarrow> js_error + matrix" where
  "tf_matMul_transposed a b =
     (if list_all (\<lambda>x. list_all (\<lambda>y. length x = length y) b) a
      then Inr (map (\<lambda>x. map (\<lambda>y. dot x y) b) a)
      else Inl TensorError)"

definition tf_scores :: "matrix \<Rightarrow> matrix \<Rightarrow> js_error + jsnum list" where
  "tf_scores allItemEmbeddings userEmb =
     (case userEmb of
        [u] \<Rightarrow>
          if list_all (\<lambda>r. length r = length u) allItemEmbeddings
          then Inr (map (\<lambda>r. dot r u) allItemEmbeddings)
          else Inl TensorError
      | _ \<Rightarrow> Inl TensorError)"

text \<open>\<open>tf.oneHot(tf.range(0, n, 1), n)\<close>: the identity labels of section 4.5.\<close>

definition oneHotRange :: "nat \<Rightarrow> matrix" where
  "oneHotRange n = map (\<lambda>i. map (\<lambda>j. if i = j then Fin 1 else Fin 0) [0..<n]) [0..<n]"

text \<open>
  Modelled from the spec: \<open>tf.tidy(fn)\<close>, of the tensor library, is not in the repository.
  Section 5: every tensor created during a step is scoped to that step and released at its
  end. So \<open>tidy\<close> runs the callback and then releases each tensor created inside, except
  the tensor the callback returned. What the caller holds afterwards is a tensor that is
  kept or one that is released; every operation on a released tensor throws.
\<close>

datatype scoped = Kept matrix | Released

definition tf_tidy :: "js_error + matrix \<Rightarrow> js_error + scoped" where
  "tf_tidy r = (case r of Inl e \<Rightarrow> Inl e | Inr t \<Rightarrow> Inr (Kept t))"

text \<open>
  \<open>await tf.tidy(async () => ...)\<close>: an \<open>async\<close> callback returns a promise, not a tensor,
  so the scope ends with nothing to keep and the tensor the promise resolves to has been
  released when \<open>await\<close> delivers it. An exception of the callback rejects the promise.
\<close>

definition tf_tidy_async :: "js_error + matrix \<Rightarrow> js_error + scoped" where
  "tf_tidy_async r = (case r of Inl e \<Rightarrow> Inl e | Inr t \<Rightarrow> Inr Released)"

definition tensor_of :: "scoped \<Rightarrow> js_error + matrix" where
  "tensor_of h = (case h of Kept t \<Rightarrow> Inr t | Released \<Rightarrow> Inl TensorDisposed)"

section \<open>The two model classes\<close>

text \<open>
  An object of \<open>SimpleTwoTowerModel\<close> or of \<open>DeepTwoTowerModel\<close>: its class, its embedding
  tables, its dense layers, and the learning rate of its optimizer. A training step
  replaces the tables and layers by the updated ones.
\<close>

datatype model =
    SimpleTwoTowerModel (userEmbeddings: matrix) (itemEmbeddings: matrix) (optimizerRate: real)
  | DeepTwoTowerModel (userEmbeddings: matrix) (itemEmbeddings: matrix)
      (userDense1: dense) (userDense2: dense) (itemDense1: dense) (itemDense2: dense)
      (optimizerRate: real)

text \<open>
  What stays a parameter is what draws at random or differentiates: the initial values of
  a variable (\<open>tf.randomNormal\<close>, by the name of the variable) and of a dense layer (by
  the field that holds it, with its units, its activation and its input width when
  given), the loss \<open>tf.losses.softmaxCrossEntropy\<close> of labels and logits, and the step of
  the optimizer, which takes the loss as a function of the model, and gives the value of
  the loss and the updated model, or the exception the loss threw.
\<close>

record tflib =
  randomNormal :: "string \<Rightarrow> nat \<Rightarrow> nat \<Rightarrow> matrix"
  layersDense :: "string \<Rightarrow> nat \<Rightarrow> bool \<Rightarrow> nat option \<Rightarrow> dense"
  softmaxCrossEntropy :: "matrix \<Rightarrow> matrix \<Rightarrow> js_error + jsnum"
  adamStep :: "(model \<Rightarrow> js_error + jsnum) \<Rightarrow> model \<Rightarrow> js_error + jsnum \<times> model"

text \<open>The two constructors; \<open>tf.train.adam(0.001)\<close> gives the first learning rate.\<close>

definition new_SimpleTwoTowerModel :: "tflib \<Rightarrow> nat \<Rightarrow> nat \<Rightarrow> nat \<Rightarrow> model" where
  "new_SimpleTwoTowerModel tf numUsers numItems embDim =
     SimpleTwoTowerModel
       (randomNormal tf ''user_embeddings_simple'' numUsers embDim)
       (randomNormal tf ''item_embeddings_simple'' numItems embDim)
       (1 / 1000)"

text \<open>\<open>hiddenLayers[0]\<close> and \<open>hiddenLayers[1]\<close> are the units of the layers; without them a
  layer cannot be made.\<close>

definition new_DeepTwoTowerModel ::
  "tflib \<Rightarrow> nat \<Rightarrow> nat \<Rightarrow> nat \<Rightarrow> nat \<Rightarrow> nat \<Rightarrow> nat list \<Rightarrow> js_error + model" where
  "new_DeepTwoTowerModel tf numUsers numItems embDim userFeatureDim itemFeatureDim hiddenLayers =
     (case hiddenLayers of
        h0 # h1 # _ \<Rightarrow>
          Inr (DeepTwoTowerModel
                 (randomNormal tf ''user_embeddings_deep'' numUsers embDim)
                 (randomNormal tf ''item_embeddings_deep'' numItems embDim)
                 (layersDense tf ''userDense1'' h0 True (Some (embDim + userFeatureDim)))
                 (layersDense tf ''userDense2'' h1 False None)
                 (layersDense tf ''itemDense1'' h0 True (Some (embDim + itemFeatureDim)))
                 (layersDense tf ''itemDense2'' h1 False None)
                 (1 / 1000))
      | _ \<Rightarrow> Inl TensorError)"

text \<open>\<open>model.optimizer.learningRate = rate\<close>\<close>

definition set_optimizerRate :: "real \<Rightarrow> model \<Rightarrow> model" where
  "set_optimizerRate rate m =
     (case m of
        SimpleTwoTowerModel ue ie r \<Rightarrow> SimpleTwoTowerModel ue ie rate
      | DeepTwoTowerModel ue ie ud1 ud2 id1 id2 r \<Rightarrow> DeepTwoTowerModel ue ie ud1 ud2 id1 id2 rate)"

text \<open>
  The body the two forward passes of the deep model share, up to the last line: gather the
  id embeddings, make the features a tensor, concatenate, apply the two layers. Its value
  is \<open>output\<close> as it stands before the normalisation.
\<close>

definition tower ::
  "matrix \<Rightarrow> dense \<Rightarrow> dense \<Rightarrow> nat option list \<Rightarrow> jsnum option list list option \<Rightarrow> js_error + matrix" where
  "tower embeddings dense1 dense2 indices features =
     and_then (tf_gather embeddings indices) (\<lambda>idEmbs.
     and_then (tf_tensor2d features) (\<lambda>featureTensor.
     and_then (tf_concat idEmbs featureTensor) (\<lambda>combined.
     and_then (dense_apply dense1 combined) (\<lambda>output.
     dense_apply dense2 output))))"

text \<open>
  \<open>userForward\<close> and \<open>itemForward\<close>, dispatched on the class of the object: the simple model
  looks its rows up and ignores any features, the deep model runs its tower and normalises
  each row.
\<close>

definition userForward ::
  "model \<Rightarrow> nat option list \<Rightarrow> jsnum option list list option \<Rightarrow> js_error + matrix" where
  "userForward m userIndices userFeatures =
     (case m of
        SimpleTwoTowerModel ue ie r \<Rightarrow> tf_gather ue userIndices
      | DeepTwoTowerModel ue ie ud1 ud2 id1 id2 r \<Rightarrow>
          and_then (tower ue ud1 ud2 userIndices userFeatures) (\<lambda>output.
          Inr (tf_l2Normalize output)))"

definition itemForward ::
  "model \<Rightarrow> nat option list \<Rightarrow> jsnum option list list option \<Rightarrow> js_error + matrix" where
  "itemForward m itemIndices itemFeatures =
     (case m of
        SimpleTwoTowerModel ue ie r \<Rightarrow> tf_gather ie itemIndices
      | DeepTwoTowerModel ue ie ud1 ud2 id1 id2 r \<Rightarrow>
          and_then (tower ie id1 id2 itemIndices itemFeatures) (\<lambda>output.
          Inr (tf_l2Normalize output)))"

text \<open>
  \<open>trainStep\<close> of either class: the loss is the softmax cross-entropy of the identity
  labels against the logits of the batch, and the optimizer takes one step on it.
\<close>

definition batchLoss ::
  "tflib \<Rightarrow> nat option list \<Rightarrow> jsnum option list list option \<Rightarrow>
   nat option list \<Rightarrow> jsnum option list list option \<Rightarrow> model \<Rightarrow> js_error + jsnum" where
  "batchLoss tf userIndices userFeatures itemIndices itemFeatures m =
     and_then (userForward m userIndices userFeatures) (\<lambda>userEmbs.
     and_then (itemForward m itemIndices itemFeatures) (\<lambda>itemEmbs.
     and_then (tf_matMul_transposed userEmbs itemEmbs) (\<lambda>logits.
     softmaxCrossEntropy tf (oneHotRange (length userIndices)) logits)))"

definition trainStep ::
  "tflib \<Rightarrow> model \<Rightarrow> nat option list \<Rightarrow> jsnum option list list option \<Rightarrow>
   nat option list \<Rightarrow> jsnum option list list option \<Rightarrow> js_error + jsnum \<times> model" where
  "trainStep tf m userIndices userFeatures itemIndices itemFeatures =
     adamStep tf (batchLoss tf userIndices userFeatures itemIndices itemFeatures) m"

section \<open>train\<close>

text \<open>\<open>getUserFeatures(uid)\<close> when the id may be \<open>undefined\<close>: no user has that key.\<close>

definition getUserFeatures_of :: "'m app \<Rightarrow> jsnum option \<Rightarrow> js_error + jsnum option list" where
  "getUserFeatures_of s uid =
     (case uid of None \<Rightarrow> Inl TypeError | Some u \<Rightarrow> getUserFeatures s u)"

text \<open>\<open>this.items.get(iid).genres\<close>, a TypeError when the id has no item record; the genre
  flags then go into a tensor as they are.\<close>

definition genres_of :: "'m app \<Rightarrow> jsnum option \<Rightarrow> js_error + jsnum option list" where
  "genres_of s iid =
     (case iid of
        None \<Rightarrow> Inl TypeError
      | Some i \<Rightarrow>
          (case map_get (items s) i of
             None \<Rightarrow> Inl TypeError
           | Some it \<Rightarrow> Inr (map Some (genres it))))"

text \<open>\<open>map.get(index)\<close> for an index that may be \<open>undefined\<close> or \<open>NaN\<close>, neither of which
  is a key of a reverse map.\<close>

definition get_at :: "(nat, jsnum) jsmap \<Rightarrow> nat option \<Rightarrow> jsnum option" where
  "get_at m i = (case i of None \<Rightarrow> None | Some k \<Rightarrow> map_get m k)"

text \<open>\<open>array.slice(start, end)\<close> for \<open>start\<close> and \<open>end\<close> within the array.\<close>

definition js_slice :: "nat \<Rightarrow> nat \<Rightarrow> 'a list \<Rightarrow> 'a list" where
  "js_slice start end xs = take (end - start) (drop start xs)"

text \<open>
  \<open>getItemEmbeddings\<close> is a method of the deep model only. Of \<open>visualizeEmbeddings\<close>, what
  runs before \<open>train\<close> returns is the part up to its first \<open>await\<close>: the status, the
  sample of item indices (an index is \<open>NaN\<close> when the sample has one element), their
  features and the forward pass; an exception there is caught and becomes the status.
  The projection and the drawing come later and are not part of this model.
\<close>

definition getItemEmbeddings ::
  "model \<Rightarrow> nat option list \<Rightarrow> jsnum option list list option \<Rightarrow> js_error + matrix" where
  "getItemEmbeddings m itemIndices itemFeatures =
     (case m of
        SimpleTwoTowerModel ue ie r \<Rightarrow> Inl TypeError
      | DeepTwoTowerModel ue ie ud1 ud2 id1 id2 r \<Rightarrow> itemForward m itemIndices itemFeatures)"

definition visualizeEmbeddings :: "model app \<Rightarrow> model app" where
  "visualizeEmbeddings s =
     (case deepModel s of
        None \<Rightarrow> s
      | Some dm \<Rightarrow>
          (let s1 = s\<lparr>statusText := ComputingVisualization\<rparr>;
               sampleSize = min 500 (map_size (itemMap s1));
               sampleIndices =
                 map (\<lambda>i. if sampleSize = 1 then None
                           else Some (i * (map_size (itemMap s1) - 1) div (sampleSize - 1)))
                   [0..<sampleSize];
               sampleItemIds = map (get_at (reverseItemMap s1)) sampleIndices
           in case and_then (map_throwing (genres_of s1) sampleItemIds) (\<lambda>sampleItemFeatures.
                   getItemEmbeddings dm sampleIndices (Some sampleItemFeatures)) of
                Inl e \<Rightarrow> s1\<lparr>statusText := ErrorInVisualization e\<rparr>
              | Inr embeddingsTensor \<Rightarrow> s1))"

text \<open>
  One pass of the inner loop, for the batch at \<open>batch\<close>. The result is the two losses or
  the exception, the state then, and the states in which the call was suspended on the
  way: at the \<open>await\<close> of each training step, which comes after the optimizer has updated
  the model or, when the step fails, with the model as it was (the promise of an \<open>async\<close>
  method is rejected, and \<open>await\<close> throws when the call is resumed), and at
  \<open>await tf.nextFrame()\<close>. The chart of the losses is drawn from the loss history and is
  no part of the state.
\<close>

definition train_batch ::
  "tflib \<Rightarrow> nat option list \<Rightarrow> nat option list \<Rightarrow> nat \<Rightarrow> nat \<Rightarrow> jsnum \<Rightarrow> model app \<Rightarrow>
   (js_error + jsnum \<times> jsnum) \<times> model app \<times> model app list" where
  "train_batch tf userIndices itemIndices epoch batch numBatches s =
     (let start = batch * batchSize (config s);
          end = min (start + batchSize (config s)) (length userIndices);
          batchUsersSimple = js_slice start end userIndices;
          batchItemsSimple = js_slice start end itemIndices
      in case simpleModel s of
           None \<Rightarrow> (Inl TypeError, s, [])
         | Some sm \<Rightarrow>
        (case trainStep tf sm batchUsersSimple None batchItemsSimple None of
           Inl e \<Rightarrow> (Inl e, s, [s])
         | Inr (lossSimple, sm') \<Rightarrow>
        (let s1 = s\<lparr>simpleModel := Some sm'\<rparr>;
             batchUserIds = map (get_at (reverseUserMap s1)) batchUsersSimple;
             batchItemIds = map (get_at (reverseItemMap s1)) batchItemsSimple
         in case map_throwing (getUserFeatures_of s1) batchUserIds of
              Inl e \<Rightarrow> (Inl e, s1, [s1])
            | Inr userFeatures \<Rightarrow>
           (case map_throwing (genres_of s1) batchItemIds of
              Inl e \<Rightarrow> (Inl e, s1, [s1])
            | Inr itemFeatures \<Rightarrow>
           (case deepModel s1 of
              None \<Rightarrow> (Inl TypeError, s1, [s1])
            | Some dm \<Rightarrow>
           (case trainStep tf dm batchUsersSimple (Some userFeatures)
                   batchItemsSimple (Some itemFeatures) of
              Inl e \<Rightarrow> (Inl e, s1, [s1, s1])
            | Inr (lossDeep, dm') \<Rightarrow>
           (let s2 = s1\<lparr>deepModel := Some dm'\<rparr>;
                s3 = s2\<lparr>lossHistory := lossHistory s2 @ [lossDeep]\<rparr>;
                s4 = (if batch mod 10 = 0
                      then s3\<lparr>statusText :=
                                EpochBatch (epoch + 1) (epochs (config s3)) batch numBatches lossDeep\<rparr>
                      else s3)
            in (Inr (lossSimple, lossDeep), s4, [s1, s2, s4]))))))))"

text \<open>How a call that has passed the guard ends: it returned, it threw, or, when the fuel
  of the model is used up, it is still running.\<close>

datatype completion = Returned | Threw js_error | StillRunning

text \<open>
  The two loops, one step of loop control for one unit of fuel: leave the outer loop, or
  leave the inner loop and write the status of the epoch, or run a batch. The loop has no
  bound of its own when the number of batches is \<open>Infinity\<close> (a batch size of 0).
\<close>

fun epoch_loop ::
  "tflib \<Rightarrow> nat \<Rightarrow> nat option list \<Rightarrow> nat option list \<Rightarrow> jsnum \<Rightarrow> nat \<Rightarrow> nat \<Rightarrow> jsnum \<Rightarrow> jsnum \<Rightarrow>
   model app \<Rightarrow> completion \<times> model app \<times> model app list" where
  "epoch_loop tf 0 userIndices itemIndices numBatches epoch batch epochLossSimple epochLossDeep s =
     (StillRunning, s, [])"
| "epoch_loop tf (Suc fuel) userIndices itemIndices numBatches epoch batch epochLossSimple
     epochLossDeep s =
     (if \<not> epoch < epochs (config s) then (Returned, s, [])
      else if \<not> jlt (Fin (of_nat batch)) numBatches then
        epoch_loop tf fuel userIndices itemIndices numBatches (epoch + 1) 0 (Fin 0) (Fin 0)
          (s\<lparr>statusText := EpochDone (epoch + 1) (jdiv epochLossSimple numBatches)
                                (jdiv epochLossDeep numBatches)\<rparr>)
      else
        (case train_batch tf userIndices itemIndices epoch batch numBatches s of
           (Inl e, s', suspended) \<Rightarrow> (Threw e, s', suspended)
         | (Inr (lossSimple, lossDeep), s', suspended) \<Rightarrow>
             (case epoch_loop tf fuel userIndices itemIndices numBatches epoch (batch + 1)
                     (jadd epochLossSimple lossSimple) (jadd epochLossDeep lossDeep) s' of
                (c, s'', later) \<Rightarrow> (c, s'', suspended @ later))))"

text \<open>
  \<open>train\<close>, with the fuel of the loops. The result is how the call ended, the state then,
  and the states in which it was suspended at an \<open>await\<close>, where the handlers of other
  events run. The guard comes first; the flag is set before the models are built, and
  released after the loops.
\<close>

definition train ::
  "tflib \<Rightarrow> nat \<Rightarrow> model app \<Rightarrow> completion \<times> model app \<times> model app list" where
  "train tf fuel s =
     (if isTraining s then (Returned, s, [])
      else
        (let s1 = s\<lparr>isTraining := True, trainDisabled := True, lossHistory := [],
                    statusText := InitializingModels\<rparr>;
             s2 = s1\<lparr>simpleModel :=
                       Some (set_optimizerRate (learningRate (config s1))
                               (new_SimpleTwoTowerModel tf (map_size (userMap s1))
                                  (map_size (itemMap s1)) (embeddingDim (config s1))))\<rparr>
         in case interactions s2 of
              [] \<Rightarrow> (Threw TypeError, s2, [])
            | i0 # _ \<Rightarrow>
           (case getUserFeatures s2 (userId i0) of
              Inl e \<Rightarrow> (Threw e, s2, [])
            | Inr userFeatures \<Rightarrow>
           (case map_get (items s2) (itemId i0) of
              None \<Rightarrow> (Threw TypeError, s2, [])
            | Some it \<Rightarrow>
           (case new_DeepTwoTowerModel tf (map_size (userMap s2)) (map_size (itemMap s2))
                   (embeddingDim (config s2)) (length userFeatures) (length (genres it))
                   [64, embeddingDim (config s2)] of
              Inl e \<Rightarrow> (Threw e, s2, [])
            | Inr dm \<Rightarrow>
           (let s3 = s2\<lparr>deepModel := Some (set_optimizerRate (learningRate (config s2)) dm)\<rparr>;
                userIndices = map (\<lambda>i. map_get (userMap s3) (userId i)) (interactions s3);
                itemIndices = map (\<lambda>i. map_get (itemMap s3) (itemId i)) (interactions s3);
                s4 = s3\<lparr>statusText := StartingTraining\<rparr>;
                numBatches =
                  jceil (jdiv (Fin (of_nat (length userIndices)))
                           (Fin (of_nat (batchSize (config s4)))))
            in case epoch_loop tf fuel userIndices itemIndices numBatches 0 0 (Fin 0) (Fin 0) s4 of
                 (Returned, s5, suspended) \<Rightarrow>
                   (Returned,
                    visualizeEmbeddings
                      (s5\<lparr>isTraining := False, trainDisabled := False, testDisabled := False,
                          statusText := TrainingCompleted\<rparr>),
                    suspended)
               | (c, s5, suspended) \<Rightarrow> (c, s5, suspended)))))))"

section \<open>getRecommendations\<close>

text \<open>A candidate \<open>{itemId, score}\<close>; the item id is \<open>undefined\<close> when the reverse map
  has no entry for the index.\<close>

record candidate =
  cand_itemId :: "jsnum option"
  score :: jsnum

text \<open>\<open>ratedItemIds.has(itemId)\<close>, on a set of Numbers.\<close>

definition set_has :: "jsnum list \<Rightarrow> jsnum option \<Rightarrow> bool" where
  "set_has xs v = (case v of None \<Rightarrow> False | Some x \<Rightarrow> x \<in> set xs)"

text \<open>The callback of \<open>scoreData.forEach\<close>.\<close>

definition push_candidate ::
  "'m app \<Rightarrow> jsnum list \<Rightarrow> jsnum \<Rightarrow> nat \<Rightarrow> candidate list \<Rightarrow> candidate list" where
  "push_candidate s ratedItemIds sc itemIndex candidates =
     (let iid = map_get (reverseItemMap s) itemIndex
      in if \<not> set_has ratedItemIds iid
         then candidates @ [\<lparr>cand_itemId = iid, score = sc\<rparr>]
         else candidates)"

text \<open>\<open>(a, b) => b.score - a.score\<close>\<close>

definition cmpScore :: "candidate \<Rightarrow> candidate \<Rightarrow> jsnum" where
  "cmpScore a b = jsub (score b) (score a)"

text \<open>The last lines of \<open>getRecommendations\<close>, on the scores read back: collect the
  candidates, sort them, keep the first ten.\<close>

definition rankCandidates :: "'m app \<Rightarrow> jsnum list \<Rightarrow> jsnum list \<Rightarrow> candidate list" where
  "rankCandidates s scoreData ratedItemIds =
     take 10 (js_sort cmpScore (forEach_indexed (push_candidate s ratedItemIds) scoreData []))"

text \<open>
  \<open>getRecommendations\<close>. The user embedding and the item embeddings are each made inside
  \<open>await tf.tidy(async () => ...)\<close>, with the features of the deep model when
  \<open>model instanceof DeepTwoTowerModel\<close>; the scores are made from the two in a third
  \<open>tf.tidy\<close>, whose first operation is on the user embedding, then read back with
  \<open>data()\<close>, entry after entry, and ranked.
\<close>

definition getRecommendations ::
  "model app \<Rightarrow> model \<Rightarrow> jsnum \<Rightarrow> nat \<Rightarrow> jsnum list \<Rightarrow> js_error + candidate list" where
  "getRecommendations s m uid userIndex ratedItemIds =
     and_then
       (tf_tidy_async
          (case m of
             DeepTwoTowerModel ue ie ud1 ud2 id1 id2 r \<Rightarrow>
               and_then (getUserFeatures s uid) (\<lambda>userFeatures.
               userForward m [Some userIndex] (Some [userFeatures]))
           | SimpleTwoTowerModel ue ie r \<Rightarrow> userForward m [Some userIndex] None))
       (\<lambda>userEmb.
     (let allItemIndices = map_values (itemMap s);
          allItemIds = map (map_get (reverseItemMap s)) allItemIndices
      in and_then
           (tf_tidy_async
              (case m of
                 DeepTwoTowerModel ue ie ud1 ud2 id1 id2 r \<Rightarrow>
                   and_then (map_throwing (genres_of s) allItemIds) (\<lambda>allItemFeatures.
                   itemForward m (map Some allItemIndices) (Some allItemFeatures))
               | SimpleTwoTowerModel ue ie r \<Rightarrow> itemForward m (map Some allItemIndices) None))
           (\<lambda>allItemEmbeddings.
         and_then
           (tf_tidy
              (and_then (tensor_of userEmb) (\<lambda>userRepresentation.
               and_then (tensor_of allItemEmbeddings) (\<lambda>itemRows.
               and_then (tf_scores itemRows userRepresentation) (\<lambda>sc. Inr [sc])))))
           (\<lambda>scores.
         and_then (tensor_of scores) (\<lambda>scoreRows.
         Inr (rankCandidates s (concat scoreRows) ratedItemIds))))))"

section \<open>Concrete inputs\<close>

text \<open>Lines of tab- or pipe-separated fields, as the data files have them.\<close>

definition join :: "char \<Rightarrow> string list \<Rightarrow> string" where
  "join sep cells = foldr (\<lambda>f acc. if acc = [] then f else f @ sep # acc) cells []"

definition tsv :: "string list list \<Rightarrow> string" where
  "tsv rows = concat (map (\<lambda>r. join (CHR 0x09) r @ [CHR 0x0A]) rows)"

definition psv :: "string list list \<Rightarrow> string" where
  "psv rows = concat (map (\<lambda>r. join (CHR ''|'') r @ [CHR 0x0A]) rows)"

text \<open>The scenario of three interactions by two users on two items.\<close>

definition scenario_interactions :: "interaction list" where
  "scenario_interactions =
     [\<lparr>userId = Fin 1, itemId = Fin 1, rating = Fin 5, timestamp = Fin 100\<rparr>,
      \<lparr>userId = Fin 1, itemId = Fin 2, rating = Fin 3, timestamp = Fin 101\<rparr>,
      \<lparr>userId = Fin 2, itemId = Fin 1, rating = Fin 4, timestamp = Fin 102\<rparr>]"

definition scenario_app :: "unit app" where
  "scenario_app = (new_app True True)\<lparr>interactions := scenario_interactions\<rparr>"

text \<open>A user with exactly 20 interactions and one with 19.\<close>

definition boundary_app :: "unit app" where
  "boundary_app =
     (new_app True True)
       \<lparr>interactions :=
          replicate 20 \<lparr>userId = Fin 1, itemId = Fin 1, rating = Fin 5, timestamp = Fin 100\<rparr> @
          replicate 19 \<lparr>userId = Fin 2, itemId = Fin 1, rating = Fin 4, timestamp = Fin 102\<rparr>\<rparr>"

text \<open>Three small data files, and a damaged variant of the first two: an interaction file
  with a non-numeric user id and a line of two fields, an item file whose second line
  has no separator.\<close>

definition good_interactions :: string where
  "good_interactions = tsv [[''1'', ''1'', ''5'', ''100''], [''1'', ''2'', ''3'', ''101'']]"

definition malformed_interactions :: string where
  "malformed_interactions = tsv [[''abc'', ''1'', ''5'', ''100''], [''7'', ''8'']]"

definition good_items :: string where
  "good_items =
     psv [[''1'', ''Toy Story (1995)'', ''01-Jan-1995'', '''', ''http://a'', ''0'', ''0'', ''0'', ''1'', ''1'', ''1'']]"

definition broken_items :: string where
  "broken_items =
     psv [[''1'', ''Toy Story (1995)'', ''01-Jan-1995'', '''', ''http://a'', ''0'', ''0'', ''0'', ''1'', ''1'', ''1''],
          [''GoldenEye'']]"

definition good_users :: string where
  "good_users = psv [[''1'', ''24'', ''M'', ''technician'', ''85711'']]"

text \<open>A loaded state of two users and three items, two interactions to a batch and one
  epoch.\<close>

definition toy_app :: "model app" where
  "toy_app =
     createMappings
       ((new_app True True)
          \<lparr>interactions :=
             scenario_interactions @
             [\<lparr>userId = Fin 2, itemId = Fin 3, rating = Fin 2, timestamp = Fin 103\<rparr>],
           items :=
             [(Fin 1, \<lparr>title = ''Toy Story'', year = Some (Fin 1995), genres = [Fin 0, Fin 1]\<rparr>),
              (Fin 2, \<lparr>title = ''GoldenEye'', year = Some (Fin 1995), genres = [Fin 1, Fin 0]\<rparr>),
              (Fin 3, \<lparr>title = ''Four Rooms'', year = Some (Fin 1995), genres = [Fin 0, Fin 0]\<rparr>)],
           users :=
             [(Fin 1, \<lparr>age = Fin (6 / 25), gender = 1, occupation = Some ''technician''\<rparr>),
              (Fin 2, \<lparr>age = Fin (53 / 100), gender = 0, occupation = Some ''other''\<rparr>)],
           occupationVocab := [(Some ''other'', 0), (Some ''technician'', 1)],
           config := \<lparr>maxInteractions = 80000, embeddingDim = 2, batchSize = 2, epochs = 1,
                       learningRate = 1 / 1000\<rparr>\<rparr>)"

text \<open>A stand-in for the random draws and the optimizer: every initial entry is 1, the loss
  is 1, and a step of the optimizer leaves the model as it is.\<close>

definition toy_tflib :: tflib where
  "toy_tflib =
     \<lparr>randomNormal = (\<lambda>name r c. replicate r (replicate c (Fin 1))),
      layersDense =
        (\<lambda>name units act inputShape.
           \<lparr>kernel = replicate (case inputShape of None \<Rightarrow> 64 | Some n \<Rightarrow> n)
                                (replicate units (Fin 1)),
            bias = replicate units (Fin 0), relu = act\<rparr>),
      softmaxCrossEntropy = (\<lambda>labels logits. Inr (Fin 1)),
      adamStep = (\<lambda>loss m. Inr (Fin 1, m))\<rparr>"



text \<open>A state whose vocabulary is that of the occupations engineer, artist, engineer, with
  one user of another occupation.\<close>

definition vocab_app :: "unit app" where
  "vocab_app =
     (new_app True True)
       \<lparr>users := [(Fin 1, \<lparr>age = Fin (6 / 25), gender = 1, occupation = Some ''technician''\<rparr>)],
        occupationVocab := [(Some ''artist'', 0), (Some ''engineer'', 1)]\<rparr>"

section \<open>Lemmas about sets, maps and the dense index maps\<close>

lemma set_fold_set_add: "set (fold set_add xs acc) = set acc \<union> set xs"
  by (induction xs arbitrary: acc) (auto simp: set_add_def)

lemma distinct_fold_set_add: "distinct acc \<Longrightarrow> distinct (fold set_add xs acc)"
  by (induction xs arbitrary: acc) (auto simp: set_add_def)

lemma fold_set_add_distinct: "distinct (acc @ xs) \<Longrightarrow> fold set_add xs acc = acc @ xs"
  by (induction xs arbitrary: acc) (auto simp: set_add_def)

lemma set_set_from: "set (set_from xs) = set xs"
  by (simp add: set_from_def set_fold_set_add)

lemma distinct_set_from: "distinct (set_from xs)"
  by (simp add: set_from_def distinct_fold_set_add)

lemma length_set_from: "length (set_from xs) = card (set xs)"
  using distinct_card[OF distinct_set_from, of xs] by (simp add: set_set_from)

lemma map_get_map_set: "map_get (map_set k v m) k' = (if k' = k then Some v else map_get m k')"
  by (induction m) (auto simp: map_get_def)

lemma map_keys_map_set: "map_keys (map_set k v m) = set_add k (map_keys m)"
  by (induction m) (force simp: map_keys_def set_add_def)+

lemma set_both_apply: "set_both x i (um, rum) = (map_set x i um, map_set i x rum)"
  by (simp add: set_both_def)

lemma distinct_map_keys_map_set: "distinct (map_keys m) \<Longrightarrow> distinct (map_keys (map_set k v m))"
  by (simp add: map_keys_map_set set_add_def)

lemma set_map_keys_map_set: "set (map_keys (map_set k v m)) = insert k (set (map_keys m))"
  by (auto simp add: map_keys_map_set set_add_def)

lemma forEach_indexed_Cons_gen:
  "fold (\<lambda>(i, x). f x i) (enumerate n (x # xs)) st = fold (\<lambda>(i, x). f x i) (enumerate (Suc n) xs) (f x n st)"
  by simp

lemma fold_set_both_fwd_notin:
  "k \<notin> set xs \<Longrightarrow>
   map_get (fst (fold (\<lambda>(i, x). set_both x i) (enumerate n xs) (um, rum))) k = map_get um k"
  by (induction xs arbitrary: n um rum) (auto simp: set_both_apply map_get_map_set)

lemma fold_set_both_fwd:
  "distinct xs \<Longrightarrow> j < length xs \<Longrightarrow>
   map_get (fst (fold (\<lambda>(i, x). set_both x i) (enumerate n xs) (um, rum))) (xs ! j) = Some (n + j)"
proof (induction xs arbitrary: n um rum j)
  case Nil
  then show ?case by simp
next
  case (Cons x xs)
  show ?case
  proof (cases j)
    case 0
    with Cons.prems show ?thesis
      by (simp add: set_both_apply fold_set_both_fwd_notin map_get_map_set)
  next
    case (Suc j')
    with Cons.prems Cons.IH[of j' "Suc n"] show ?thesis
      by (simp add: set_both_apply)
  qed
qed

lemma fold_set_both_bwd_below:
  "k < n \<Longrightarrow>
   map_get (snd (fold (\<lambda>(i, x). set_both x i) (enumerate n xs) (um, rum))) k = map_get rum k"
  by (induction xs arbitrary: n um rum) (auto simp: set_both_apply map_get_map_set)

lemma fold_set_both_bwd:
  "j < length xs \<Longrightarrow>
   map_get (snd (fold (\<lambda>(i, x). set_both x i) (enumerate n xs) (um, rum))) (n + j) = Some (xs ! j)"
proof (induction xs arbitrary: n um rum j)
  case Nil
  then show ?case by simp
next
  case (Cons x xs)
  show ?case
  proof (cases j)
    case 0
    then show ?thesis
      by (simp add: set_both_apply fold_set_both_bwd_below map_get_map_set)
  next
    case (Suc j')
    with Cons.prems Cons.IH[of j' "Suc n"] show ?thesis
      by (simp add: set_both_apply)
  qed
qed

lemma fold_set_both_keys:
  "map_keys (fst (fold (\<lambda>(i, x). set_both x i) (enumerate n xs) (um, rum))) = fold set_add xs (map_keys um)"
  by (induction xs arbitrary: n um rum) (auto simp: set_both_apply map_keys_map_set)

lemma dense_index_maps:
  fixes um :: "(jsnum, nat) jsmap" and rum :: "(nat, jsnum) jsmap"
  assumes r: "(um', rum') = forEach_indexed set_both (set_from raw) (um, rum)"
  shows "bij_betw (\<lambda>u. the (map_get um' u)) (set raw) {0..<card (set raw)}"
    and "\<forall>u\<in>set raw. \<exists>i. map_get um' u = Some i \<and> map_get rum' i = Some u"
    and "um = [] \<longrightarrow> map_keys um' = set_from raw \<and> map_size um' = card (set raw)"
proof -
  let ?xs = "set_from raw"
  let ?res = "fold (\<lambda>(i, x). set_both x i) (enumerate 0 ?xs) (um, rum)"
  have um': "um' = fst ?res"
    using arg_cong[OF r, of fst] by (simp add: forEach_indexed_def)
  have rum': "rum' = snd ?res"
    using arg_cong[OF r, of snd] by (simp add: forEach_indexed_def)
  have d: "distinct ?xs" by (rule distinct_set_from)
  have len: "length ?xs = card (set raw)" by (rule length_set_from)
  have fwd: "map_get um' (?xs ! j) = Some j" if "j < length ?xs" for j
    using fold_set_both_fwd[OF d that, of 0 um rum] by (simp add: um')
  have bwd: "map_get rum' j = Some (?xs ! j)" if "j < length ?xs" for j
    using fold_set_both_bwd[OF that, of 0 um rum] by (simp add: rum')
  show "bij_betw (\<lambda>u. the (map_get um' u)) (set raw) {0..<card (set raw)}"
    unfolding bij_betw_def
  proof
    show "inj_on (\<lambda>u. the (map_get um' u)) (set raw)"
    proof (rule inj_onI)
      fix u v assume u: "u \<in> set raw" and v: "v \<in> set raw"
        and e: "the (map_get um' u) = the (map_get um' v)"
      from u obtain j where j: "j < length ?xs" "?xs ! j = u"
        by (metis in_set_conv_nth set_set_from)
      from v obtain k where k: "k < length ?xs" "?xs ! k = v"
        by (metis in_set_conv_nth set_set_from)
      from e fwd[OF j(1)] fwd[OF k(1)] j k show "u = v" by simp
    qed
    show "(\<lambda>u. the (map_get um' u)) ` set raw = {0..<card (set raw)}"
    proof (rule set_eqI)
      fix i
      show "i \<in> (\<lambda>u. the (map_get um' u)) ` set raw \<longleftrightarrow> i \<in> {0..<card (set raw)}"
      proof
        assume "i \<in> (\<lambda>u. the (map_get um' u)) ` set raw"
        then obtain u where u: "u \<in> set raw" "i = the (map_get um' u)" by blast
        from u obtain j where j: "j < length ?xs" "?xs ! j = u"
          by (metis in_set_conv_nth set_set_from)
        with fwd[OF j(1)] u len show "i \<in> {0..<card (set raw)}" by simp
      next
        assume "i \<in> {0..<card (set raw)}"
        then have i: "i < length ?xs" by (simp add: len)
        have "?xs ! i \<in> set raw" using i by (metis nth_mem set_set_from)
        moreover have "the (map_get um' (?xs ! i)) = i" using fwd[OF i] by simp
        ultimately show "i \<in> (\<lambda>u. the (map_get um' u)) ` set raw" by force
      qed
    qed
  qed
  show "\<forall>u\<in>set raw. \<exists>i. map_get um' u = Some i \<and> map_get rum' i = Some u"
  proof
    fix u assume "u \<in> set raw"
    then obtain j where j: "j < length ?xs" "?xs ! j = u"
      by (metis in_set_conv_nth set_set_from)
    with fwd[OF j(1)] bwd[OF j(1)] show "\<exists>i. map_get um' u = Some i \<and> map_get rum' i = Some u"
      by auto
  qed
  show "um = [] \<longrightarrow> map_keys um' = set_from raw \<and> map_size um' = card (set raw)"
  proof
    assume e: "um = []"
    have "map_keys um' = fold set_add ?xs []"
      by (simp add: um' fold_set_both_keys e) (simp add: map_keys_def)
    then have k: "map_keys um' = set_from raw"
      using fold_set_add_distinct[of "[]" ?xs] d by simp
    have "map_size um' = length (map_keys um')" by (simp add: map_size_def map_keys_def)
    with k len show "map_keys um' = set_from raw \<and> map_size um' = card (set raw)" by simp
  qed
qed

text \<open>
  Claim C2. After \<open>createMappings\<close>, \<open>userMap\<close> is a bijection from the distinct user ids
  of the interaction sequence onto \<open>[0, n)\<close>, \<open>n\<close> the number of these ids, and
  \<open>reverseUserMap[userMap[u]] = u\<close> for each of them; the same holds for \<open>itemMap\<close> and
  \<open>reverseItemMap\<close> over the distinct item ids. When the maps were empty before, as the
  constructor leaves them, their keys are exactly these ids and \<open>n\<close> is the size of the map,
  which is what \<open>train\<close> passes to the models as \<open>numUsers\<close> and \<open>numItems\<close>.
\<close>

theorem createMappings_bijection:
  "(let s' = createMappings s;
        uids = set (map userId (interactions s));
        iids = set (map itemId (interactions s))
    in bij_betw (\<lambda>u. the (map_get (userMap s') u)) uids {0..<card uids}
     \<and> (\<forall>u\<in>uids. \<exists>i. map_get (userMap s') u = Some i \<and> map_get (reverseUserMap s') i = Some u)
     \<and> bij_betw (\<lambda>u. the (map_get (itemMap s') u)) iids {0..<card iids}
     \<and> (\<forall>u\<in>iids. \<exists>i. map_get (itemMap s') u = Some i \<and> map_get (reverseItemMap s') i = Some u)
     \<and> (userMap s = [] \<longrightarrow> set (map_keys (userMap s')) = uids \<and> map_size (userMap s') = card uids)
     \<and> (itemMap s = [] \<longrightarrow> set (map_keys (itemMap s')) = iids \<and> map_size (itemMap s') = card iids))"
proof -
  obtain um rum where u: "(um, rum) = forEach_indexed set_both (set_from (map userId (interactions s))) (userMap s, reverseUserMap s)"
    by (metis surj_pair)
  obtain im rim where i: "(im, rim) = forEach_indexed set_both (set_from (map itemId (interactions s))) (itemMap s, reverseItemMap s)"
    by (metis surj_pair)
  have s1: "userMap (createMappings s) = um" "reverseUserMap (createMappings s) = rum"
    "itemMap (createMappings s) = im" "reverseItemMap (createMappings s) = rim"
    by (simp_all add: createMappings_def Let_def flip: u i)
  note U = dense_index_maps[OF u] and I = dense_index_maps[OF i]
  show ?thesis
    unfolding Let_def s1
    using U I by (simp add: set_set_from)
qed

section \<open>Grouping by user and sorting\<close>

lemma map_get_push_interaction:
  "map_get (push_interaction i m) u =
     (if u = userId i then Some ((case map_get m u of None \<Rightarrow> [] | Some h \<Rightarrow> h) @ [i])
      else map_get m u)"
  by (auto simp: push_interaction_def Let_def map_has_def map_get_map_set split: option.splits)

lemma distinct_keys_push_interaction:
  "distinct (map_keys m) \<Longrightarrow> distinct (map_keys (push_interaction i m))"
  by (auto simp: push_interaction_def Let_def distinct_map_keys_map_set split: option.splits)

lemma distinct_keys_fold_push:
  "distinct (map_keys m) \<Longrightarrow> distinct (map_keys (fold push_interaction xs m))"
  by (induction xs arbitrary: m) (auto simp: distinct_keys_push_interaction)

lemma map_get_fold_push:
  "map_get (fold push_interaction xs m) u =
     (if filter (\<lambda>i. userId i = u) xs = [] then map_get m u
      else Some ((case map_get m u of None \<Rightarrow> [] | Some h \<Rightarrow> h) @ filter (\<lambda>i. userId i = u) xs))"
  by (induction xs arbitrary: m) (auto simp: map_get_push_interaction)

lemma map_get_Nil: "map_get [] k = None"
  by (simp add: map_get_def)

lemma grouped_entries:
  "(u, h) \<in> set (fold push_interaction xs []) \<longleftrightarrow>
     h = filter (\<lambda>i. userId i = u) xs \<and> h \<noteq> []"
proof -
  have d: "distinct (map fst (fold push_interaction xs []))"
    using distinct_keys_fold_push[of "[]" xs] by (simp add: map_keys_def)
  have "(u, h) \<in> set (fold push_interaction xs []) \<longleftrightarrow> map_get (fold push_interaction xs []) u = Some h"
    using d by (simp add: map_get_def)
  also have "\<dots> \<longleftrightarrow> h = filter (\<lambda>i. userId i = u) xs \<and> h \<noteq> []"
    by (auto simp: map_get_fold_push map_get_Nil)
  finally show ?thesis .
qed

lemma userTopRated_createMappings:
  "userTopRated (createMappings s) =
     map (\<lambda>(u, h). (u, js_sort cmpTopRated h)) (fold push_interaction (interactions s) [])"
  by (simp add: createMappings_def Let_def split: prod.splits)

lemma userTopRated_entries:
  "(u, h) \<in> set (userTopRated (createMappings s)) \<longleftrightarrow>
     h = js_sort cmpTopRated (filter (\<lambda>i. userId i = u) (interactions s)) \<and>
     filter (\<lambda>i. userId i = u) (interactions s) \<noteq> []"
proof -
  have "(u, h) \<in> set (userTopRated (createMappings s)) \<longleftrightarrow>
        (\<exists>g. (u, g) \<in> set (fold push_interaction (interactions s) []) \<and> h = js_sort cmpTopRated g)"
    by (auto simp: userTopRated_createMappings)
  then show ?thesis by (auto simp: grouped_entries)
qed

lemma mset_insort_cmp: "mset (insort_cmp cmp x xs) = add_mset x (mset xs)"
  by (induction xs) auto

lemma mset_js_sort: "mset (js_sort cmp xs) = mset xs"
  by (induction xs) (auto simp: js_sort_def mset_insort_cmp)

lemma length_js_sort: "length (js_sort cmp xs) = length xs"
  using mset_js_sort[of cmp xs] by (metis size_mset)

lemma set_js_sort: "set (js_sort cmp xs) = set xs"
  using mset_js_sort[of cmp xs] by (metis set_mset_mset)

lemma set_insort_cmp: "set (insort_cmp cmp x xs) = insert x (set xs)"
  using mset_insort_cmp[of cmp x xs] by (metis set_mset_mset set_mset_add_mset_insert)

lemma sorted_wrt_insort_cmp:
  assumes tr: "\<And>a b c. a \<in> A \<Longrightarrow> b \<in> A \<Longrightarrow> c \<in> A \<Longrightarrow> \<not> jpos (cmp a b) \<Longrightarrow> \<not> jpos (cmp b c) \<Longrightarrow> \<not> jpos (cmp a c)"
    and tot: "\<And>a b. a \<in> A \<Longrightarrow> b \<in> A \<Longrightarrow> jpos (cmp a b) \<Longrightarrow> \<not> jpos (cmp b a)"
    and x: "x \<in> A" and xs: "set xs \<subseteq> A"
    and s: "sorted_wrt (\<lambda>a b. \<not> jpos (cmp a b)) xs"
  shows "sorted_wrt (\<lambda>a b. \<not> jpos (cmp a b)) (insort_cmp cmp x xs)"
  using xs s
proof (induction xs)
  case Nil
  then show ?case by simp
next
  case (Cons y ys)
  show ?case
  proof (cases "jpos (cmp x y)")
    case True
    then have "\<not> jpos (cmp y x)" using tot x Cons.prems(1) by simp
    with True Cons show ?thesis by (auto simp: set_insort_cmp)
  next
    case False
    have "\<not> jpos (cmp x z)" if "z \<in> set ys" for z
    proof -
      have "\<not> jpos (cmp y z)" using Cons.prems(2) that by simp
      with False show ?thesis using tr[of x y z] x Cons.prems(1) that by auto
    qed
    with False Cons.prems(2) show ?thesis by auto
  qed
qed

lemma sorted_wrt_js_sort:
  assumes tr: "\<And>a b c. a \<in> A \<Longrightarrow> b \<in> A \<Longrightarrow> c \<in> A \<Longrightarrow> \<not> jpos (cmp a b) \<Longrightarrow> \<not> jpos (cmp b c) \<Longrightarrow> \<not> jpos (cmp a c)"
    and tot: "\<And>a b. a \<in> A \<Longrightarrow> b \<in> A \<Longrightarrow> jpos (cmp a b) \<Longrightarrow> \<not> jpos (cmp b a)"
    and xs: "set xs \<subseteq> A"
  shows "sorted_wrt (\<lambda>a b. \<not> jpos (cmp a b)) (js_sort cmp xs)"
  using xs
proof (induction xs)
  case Nil
  then show ?case by (simp add: js_sort_def)
next
  case (Cons x xs)
  have x: "x \<in> A" and sub: "set (js_sort cmp xs) \<subseteq> A"
    using Cons.prems by (simp_all add: set_js_sort)
  have ih: "sorted_wrt (\<lambda>a b. \<not> jpos (cmp a b)) (js_sort cmp xs)"
    using Cons by simp
  have "sorted_wrt (\<lambda>a b. \<not> jpos (cmp a b)) (insort_cmp cmp x (js_sort cmp xs))"
    by (rule sorted_wrt_insort_cmp[where A = A, OF tr tot x sub ih])
  then show ?case by (simp add: js_sort_def)
qed

lemma jpos_jsub: "a \<noteq> NaN \<Longrightarrow> b \<noteq> NaN \<Longrightarrow> jpos (jsub b a) \<longleftrightarrow> \<not> jge a b"
  by (cases a; cases b) auto

lemma truthy_jsub: "a \<noteq> NaN \<Longrightarrow> b \<noteq> NaN \<Longrightarrow> truthy (jsub b a) \<longleftrightarrow> a \<noteq> b"
  by (cases a; cases b) auto

lemma jge_refl: "a \<noteq> NaN \<Longrightarrow> jge a a"
  by (cases a) auto

lemma jge_total: "a \<noteq> NaN \<Longrightarrow> b \<noteq> NaN \<Longrightarrow> jge a b \<or> jge b a"
  by (cases a; cases b) auto

lemma jge_trans: "jge a b \<Longrightarrow> jge b c \<Longrightarrow> jge a c"
  by (cases a; cases b; cases c) auto

lemma jge_antisym: "jge a b \<Longrightarrow> jge b a \<Longrightarrow> a = b"
  by (cases a; cases b) auto

lemma cmpTopRated_le:
  assumes "numeric a" "numeric b"
  shows "\<not> jpos (cmpTopRated a b) \<longleftrightarrow>
         (if rating a = rating b then jge (timestamp a) (timestamp b) else jge (rating a) (rating b))"
  using assms by (auto simp: cmpTopRated_def jor_def numeric_def truthy_jsub jpos_jsub jge_refl)

lemma cmpTopRated_trans:
  assumes "numeric a" "numeric b" "numeric c"
    and "\<not> jpos (cmpTopRated a b)" "\<not> jpos (cmpTopRated b c)"
  shows "\<not> jpos (cmpTopRated a c)"
proof -
  have ab: "if rating a = rating b then jge (timestamp a) (timestamp b) else jge (rating a) (rating b)"
    using assms(4) cmpTopRated_le[OF assms(1,2)] by simp
  have bc: "if rating b = rating c then jge (timestamp b) (timestamp c) else jge (rating b) (rating c)"
    using assms(5) cmpTopRated_le[OF assms(2,3)] by simp
  have "if rating a = rating c then jge (timestamp a) (timestamp c) else jge (rating a) (rating c)"
  proof (cases "rating a = rating b")
    case True
    show ?thesis
    proof (cases "rating b = rating c")
      case True
      with \<open>rating a = rating b\<close> ab bc show ?thesis
        using jge_trans[of "timestamp a" "timestamp b" "timestamp c"] by simp
    next
      case False
      with True ab bc show ?thesis by simp
    qed
  next
    case False
    show ?thesis
    proof (cases "rating b = rating c")
      case True
      with False ab bc show ?thesis by simp
    next
      case bcne: False
      have r: "jge (rating a) (rating c)"
        using False bcne ab bc jge_trans[of "rating a" "rating b" "rating c"] by simp
      have "rating a \<noteq> rating c"
      proof
        assume e: "rating a = rating c"
        with bc bcne have "jge (rating b) (rating a)" by simp
        moreover from ab False have "jge (rating a) (rating b)" by simp
        ultimately show False using jge_antisym False by blast
      qed
      with r show ?thesis by simp
    qed
  qed
  then show ?thesis using cmpTopRated_le[OF assms(1,3)] by simp
qed

lemma cmpTopRated_total:
  assumes "numeric a" "numeric b" and "jpos (cmpTopRated a b)"
  shows "\<not> jpos (cmpTopRated b a)"
  using assms(3) cmpTopRated_le[OF assms(1,2)] cmpTopRated_le[OF assms(2,1)]
    jge_total[of "rating a" "rating b"] jge_total[of "timestamp a" "timestamp b"] assms(1,2)
  by (auto simp: numeric_def split: if_splits)

text \<open>
  Claim C5. For every user, the history that \<open>createMappings\<close> stores is a rearrangement of
  that user's interactions, and in it ratings are non-increasing and, among equal ratings,
  timestamps are non-increasing, whenever the ratings and timestamps of that history are
  numbers (none is \<open>NaN\<close>).
\<close>

theorem userTopRated_sorted:
  "\<forall>(u, h)\<in>set (userTopRated (createMappings s)).
     mset h = mset (filter (\<lambda>i. userId i = u) (interactions s)) \<and>
     ((\<forall>i\<in>set h. rating i \<noteq> NaN \<and> timestamp i \<noteq> NaN) \<longrightarrow>
        sorted_wrt (\<lambda>a b. jge (rating a) (rating b) \<and>
                           (rating a = rating b \<longrightarrow> jge (timestamp a) (timestamp b))) h)"
proof (clarify, intro conjI impI)
  fix u h assume "(u, h) \<in> set (userTopRated (createMappings s))"
  then have h: "h = js_sort cmpTopRated (filter (\<lambda>i. userId i = u) (interactions s))"
    by (simp add: userTopRated_entries)
  show "mset h = mset (filter (\<lambda>i. userId i = u) (interactions s))"
    by (simp only: h mset_js_sort)
  assume num: "\<forall>i\<in>set h. rating i \<noteq> NaN \<and> timestamp i \<noteq> NaN"
  have hnum: "set h \<subseteq> {i. numeric i}"
    using num by (auto simp: numeric_def)
  then have sub: "set (filter (\<lambda>i. userId i = u) (interactions s)) \<subseteq> {i. numeric i}"
    by (simp add: h set_js_sort)
  have srt: "sorted_wrt (\<lambda>a b. \<not> jpos (cmpTopRated a b)) h"
    unfolding h
  proof (rule sorted_wrt_js_sort[where A = "{i. numeric i}"])
    show "set (filter (\<lambda>i. userId i = u) (interactions s)) \<subseteq> {i. numeric i}" by (rule sub)
  next
    fix a b c
    assume "a \<in> {i. numeric i}" "b \<in> {i. numeric i}" "c \<in> {i. numeric i}"
      and "\<not> jpos (cmpTopRated a b)" "\<not> jpos (cmpTopRated b c)"
    then show "\<not> jpos (cmpTopRated a c)"
      using cmpTopRated_trans[of a b c] by simp
  next
    fix a b
    assume "a \<in> {i. numeric i}" "b \<in> {i. numeric i}" and "jpos (cmpTopRated a b)"
    then show "\<not> jpos (cmpTopRated b a)"
      using cmpTopRated_total[of a b] by simp
  qed
  show "sorted_wrt (\<lambda>a b. jge (rating a) (rating b) \<and>
                          (rating a = rating b \<longrightarrow> jge (timestamp a) (timestamp b))) h"
  proof (rule sorted_wrt_mono_rel[OF _ srt])
    fix a b assume "a \<in> set h" "b \<in> set h" and le: "\<not> jpos (cmpTopRated a b)"
    then have n: "numeric a" "numeric b" using hnum by auto
    show "jge (rating a) (rating b) \<and> (rating a = rating b \<longrightarrow> jge (timestamp a) (timestamp b))"
      using le n cmpTopRated_le[OF n] by (auto simp: numeric_def jge_refl split: if_splits)
  qed
qed

lemma in_map_fst_filter:
  "u \<in> set (map fst (filter (\<lambda>(u, h). P h) xs)) \<longleftrightarrow> (\<exists>h. (u, h) \<in> set xs \<and> P h)"
  by (induction xs) auto

lemma qualifiedUsers_findQualifiedUsers:
  "qualifiedUsers (findQualifiedUsers t) = map fst (filter (\<lambda>(u, h). 20 \<le> length h) (userTopRated t))"
  by (simp add: findQualifiedUsers_def)

text \<open>
  Claim C8. After \<open>createMappings\<close> and \<open>findQualifiedUsers\<close>, a user id is among the
  qualified users exactly when at least 20 interactions of the sequence carry it.
\<close>

theorem qualifiedUsers_iff_count:
  "u \<in> set (qualifiedUsers (findQualifiedUsers (createMappings s))) \<longleftrightarrow>
     20 \<le> length (filter (\<lambda>i. userId i = u) (interactions s))"
proof -
  let ?F = "filter (\<lambda>i. userId i = u) (interactions s)"
  have "u \<in> set (qualifiedUsers (findQualifiedUsers (createMappings s))) \<longleftrightarrow>
        (\<exists>h. (u, h) \<in> set (userTopRated (createMappings s)) \<and> 20 \<le> length h)"
    unfolding qualifiedUsers_findQualifiedUsers by (rule in_map_fst_filter)
  also have "\<dots> \<longleftrightarrow> (?F \<noteq> [] \<and> 20 \<le> length (js_sort cmpTopRated ?F))"
    by (simp only: userTopRated_entries) blast
  also have "\<dots> \<longleftrightarrow> 20 \<le> length ?F"
    by (cases ?F) (simp_all add: length_js_sort)
  finally show ?thesis .
qed

section \<open>The feature vector\<close>

lemma length_map_set_ge: "length m \<le> length (map_set k v m)"
  by (induction m) auto

lemma set_map_set_subset: "set (map_set k v m) \<subseteq> insert (k, v) (set m)"
  by (induction m) (auto split: if_splits)

lemma fold_map_set_keys:
  "map_keys (fold (\<lambda>(i, x). map_set x i) (enumerate n ks) v) = fold set_add ks (map_keys v)"
  by (induction ks arbitrary: n v) (auto simp: map_keys_map_set)

lemma fold_map_set_length_ge:
  "length v \<le> length (fold (\<lambda>(i, x). map_set x i) (enumerate n ks) v)"
proof (induction ks arbitrary: n v)
  case Nil
  then show ?case by simp
next
  case (Cons k ks)
  have "length v \<le> length (map_set k n v)" by (rule length_map_set_ge)
  also have "\<dots> \<le> length (fold (\<lambda>(i, x). map_set x i) (enumerate (Suc n) ks) (map_set k n v))"
    by (rule Cons.IH)
  finally show ?case by simp
qed

lemma fold_map_set_entries:
  "(k, i) \<in> set (fold (\<lambda>(i, x). map_set x i) (enumerate n ks) v) \<Longrightarrow>
     (k, i) \<in> set v \<or> (k \<in> set ks \<and> i < n + length ks)"
proof (induction ks arbitrary: n v)
  case Nil
  then show ?case by simp
next
  case (Cons a ks)
  from Cons.prems have "(k, i) \<in> set (fold (\<lambda>(i, x). map_set x i) (enumerate (Suc n) ks) (map_set a n v))"
    by simp
  from Cons.IH[OF this] have "(k, i) \<in> set (map_set a n v) \<or> (k \<in> set ks \<and> i < Suc n + length ks)" .
  then show ?case
  proof
    assume "(k, i) \<in> set (map_set a n v)"
    then have "(k, i) = (a, n) \<or> (k, i) \<in> set v" using set_map_set_subset[of a n v] by auto
    then show ?thesis by auto
  next
    assume "k \<in> set ks \<and> i < Suc n + length ks"
    then show ?thesis by auto
  qed
qed

lemma vocab_ok_forEach:
  assumes ok: "vocab_ok v" and d: "distinct ks"
  shows "vocab_ok (forEach_indexed map_set ks v)"
proof -
  let ?r = "fold (\<lambda>(i, x). map_set x i) (enumerate 0 ks) v"
  have r: "forEach_indexed map_set ks v = ?r" by (simp add: forEach_indexed_def)
  have "set ks \<subseteq> set (map_keys ?r)" by (simp add: fold_map_set_keys set_fold_set_add)
  then have "card (set ks) \<le> card (set (map_keys ?r))" by (simp add: card_mono)
  also have "\<dots> \<le> length (map_keys ?r)" by (rule card_length)
  finally have big: "length ks \<le> length ?r" using d by (simp add: distinct_card map_keys_def)
  have "i < length ?r" if "(k, i) \<in> set ?r" for k i
  proof -
    from fold_map_set_entries[OF that] have "(k, i) \<in> set v \<or> (k \<in> set ks \<and> i < 0 + length ks)" .
    then show ?thesis
    proof
      assume "(k, i) \<in> set v"
      then have "i < length v" using ok by (auto simp: vocab_ok_def list_all_iff map_size_def)
      also have "\<dots> \<le> length ?r" by (rule fold_map_set_length_ge)
      finally show ?thesis .
    next
      assume "k \<in> set ks \<and> i < 0 + length ks"
      with big show ?thesis by simp
    qed
  qed
  then show ?thesis unfolding r by (auto simp: vocab_ok_def list_all_iff map_size_def)
qed

lemma distinct_somes: "distinct xs \<Longrightarrow> distinct [str. Some str \<leftarrow> xs]"
  by (induction xs) (auto split: option.splits)

lemma set_somes: "set [str. Some str \<leftarrow> xs] = {str. Some str \<in> set xs}"
  by (induction xs) (auto split: option.splits)

lemma distinct_js_sort_default: "distinct xs \<Longrightarrow> distinct (js_sort_default xs)"
  by (auto simp: js_sort_default_def distinct_map distinct_somes)

lemma distinct_occupations:
  "distinct occs \<Longrightarrow> distinct (snd (fold parseUserLine ls (us, occs)))"
  by (induction ls arbitrary: us occs) (auto simp: parseUserLine_def Let_def set_add_def)

lemma occupationVocab_createMappings: "occupationVocab (createMappings s) = occupationVocab s"
  by (simp add: createMappings_def Let_def split: prod.splits)

lemma interactions_createMappings: "interactions (createMappings s) = interactions s"
  by (simp add: createMappings_def Let_def split: prod.splits)

lemma items_createMappings: "items (createMappings s) = items s"
  by (simp add: createMappings_def Let_def split: prod.splits)

lemma users_createMappings: "users (createMappings s) = users s"
  by (simp add: createMappings_def Let_def split: prod.splits)

lemma loadData_FetchFailed:
  "loadData (FetchFailed e) s = s\<lparr>statusText := ErrorLoadingData e\<rparr>"
  by (simp add: loadData_def)

lemma loadData_items_error:
  assumes "parseItems (js_split (CHR 0x0A) (js_trim im)) (items s) = (Some e, its)"
  shows "loadData (Fetched it im us) s =
           s\<lparr>interactions := parseInteractions (maxInteractions (config s)) it,
             items := its, statusText := ErrorLoadingData e\<rparr>"
  using assms by (simp add: loadData_def)

lemma loadData_success:
  assumes "parseItems (js_split (CHR 0x0A) (js_trim im)) (items s) = (None, its)"
    and "fold parseUserLine (js_split (CHR 0x0A) (js_trim us)) (users s, []) = (u, occs)"
  shows "loadData (Fetched it im us) s =
           (findQualifiedUsers (createMappings
              (s\<lparr>statusText := LoadingData,
                 interactions := parseInteractions (maxInteractions (config s)) it,
                 items := its, users := u,
                 occupationVocab := forEach_indexed map_set (js_sort_default occs) (occupationVocab s)\<rparr>)))
           \<lparr>statusText := Loaded (length (parseInteractions (maxInteractions (config s)) it))
                                  (map_size its) (map_size u),
            trainDisabled := False\<rparr>"
  using assms
  by (simp add: loadData_def Let_def findQualifiedUsers_def interactions_createMappings
        items_createMappings users_createMappings)

lemma vocab_ok_loadData:
  assumes "vocab_ok (occupationVocab s)"
  shows "vocab_ok (occupationVocab (loadData f s))"
proof (cases f)
  case (FetchFailed e)
  with assms show ?thesis by (simp add: loadData_FetchFailed)
next
  case (Fetched it im us)
  obtain err its where p: "parseItems (js_split (CHR 0x0A) (js_trim im)) (items s) = (err, its)"
    by (cases "parseItems (js_split (CHR 0x0A) (js_trim im)) (items s)") 
  show ?thesis
  proof (cases err)
    case (Some e)
    with assms Fetched p show ?thesis by (simp add: loadData_items_error)
  next
    case None
    obtain u occs where q: "fold parseUserLine (js_split (CHR 0x0A) (js_trim us)) (users s, []) = (u, occs)"
      by (cases "fold parseUserLine (js_split (CHR 0x0A) (js_trim us)) (users s, [])")
    have "distinct occs"
      using distinct_occupations[of "[]" "js_split (CHR 0x0A) (js_trim us)" "users s"] q by simp
    then have "vocab_ok (forEach_indexed map_set (js_sort_default occs) (occupationVocab s))"
      using assms by (intro vocab_ok_forEach distinct_js_sort_default)
    then show ?thesis
      unfolding Fetched loadData_success[OF p[unfolded None] q]
      by (simp add: findQualifiedUsers_def occupationVocab_createMappings)
  qed
qed

lemma vocab_ok_loads: "vocab_ok (occupationVocab s) \<Longrightarrow> vocab_ok (occupationVocab (fold loadData fs s))"
  by (induction fs arbitrary: s) (auto simp: vocab_ok_loadData)

lemma vocab_ok_new_app: "vocab_ok (occupationVocab (new_app a b))"
  by (simp add: new_app_def vocab_ok_def)

lemma vocab_index_bound:
  "vocab_ok v \<Longrightarrow> map_get v k = Some i \<Longrightarrow> i < map_size v"
  by (auto simp: vocab_ok_def list_all_iff map_get_def dest: map_of_SomeD)

text \<open>
  Claim C6. For a user id present in the users table, \<open>getUserFeatures\<close> returns a vector
  of length \<open>2 + occupationVocab.size\<close>, and when the user's occupation is not in the
  vocabulary the part after the first two entries is all zeros, with no error. The
  vocabulary is one whose indices are below its size, which the constructor establishes
  and every load keeps (\<open>vocab_ok_new_app\<close>, \<open>vocab_ok_loadData\<close>).
\<close>

theorem getUserFeatures_length:
  assumes "vocab_ok (occupationVocab s)" and "map_get (users s) uid = Some u"
  shows "\<exists>v. getUserFeatures s uid = Inr v \<and> length v = 2 + map_size (occupationVocab s) \<and>
           (map_get (occupationVocab s) (occupation u) = None \<longrightarrow>
              drop 2 v = replicate (map_size (occupationVocab s)) (Some (Fin 0)))"
proof (cases "map_get (occupationVocab s) (occupation u)")
  case None
  with assms(2) show ?thesis by (simp add: getUserFeatures_def)
next
  case (Some i)
  then have "i < map_size (occupationVocab s)" using assms(1) by (rule vocab_index_bound[rotated])
  with assms(2) Some show ?thesis by (simp add: getUserFeatures_def js_array_set_def)
qed

text \<open>
  Claim C10. For a user id with no record in the users table, \<open>getUserFeatures\<close> fails
  with a TypeError (it reads \<open>occupation\<close> of \<open>undefined\<close>) and returns no vector.
\<close>

theorem getUserFeatures_missing_user:
  "map_get (users s) uid = None \<Longrightarrow> getUserFeatures s uid = Inl TypeError"
  by (simp add: getUserFeatures_def)

section \<open>The guard of train\<close>

text \<open>No batch, no pass of the loops and no part of the visualisation writes the flag.\<close>

lemma train_batch_flag:
  assumes "train_batch tf userIndices itemIndices epoch batch numBatches s = (r, s', suspended)"
  shows "isTraining s' = isTraining s \<and> (\<forall>x\<in>set suspended. isTraining x = isTraining s)"
  using assms
  by (auto simp: train_batch_def Let_def split: option.splits sum.splits prod.splits if_splits)

lemma epoch_loop_flag:
  assumes "isTraining s"
    and "epoch_loop tf fuel userIndices itemIndices numBatches epoch batch lossSimple lossDeep s
           = (c, s', suspended)"
  shows "isTraining s' \<and> (\<forall>x\<in>set suspended. isTraining x)"
  using assms
proof (induction fuel arbitrary: epoch batch lossSimple lossDeep s c s' suspended)
  case 0
  then show ?case by simp
next
  case (Suc fuel)
  show ?case
  proof (cases "epoch < epochs (config s)")
    case False
    with Suc.prems show ?thesis by simp
  next
    case True
    show ?thesis
    proof (cases "jlt (Fin (of_nat batch)) numBatches")
      case False
      let ?s1 = "s\<lparr>statusText := EpochDone (epoch + 1) (jdiv lossSimple numBatches)
                                (jdiv lossDeep numBatches)\<rparr>"
      have "epoch_loop tf fuel userIndices itemIndices numBatches (epoch + 1) 0 (Fin 0) (Fin 0) ?s1
              = (c, s', suspended)"
        using Suc.prems(2) True False by simp
      moreover have "isTraining ?s1" using Suc.prems(1) by simp
      ultimately show ?thesis by (rule Suc.IH[rotated])
    next
      case inner: True
      obtain r s1 sus1 where b: "train_batch tf userIndices itemIndices epoch batch numBatches s = (r, s1, sus1)"
        by (cases "train_batch tf userIndices itemIndices epoch batch numBatches s")
      from train_batch_flag[OF b] Suc.prems(1)
      have f1: "isTraining s1" and fs: "\<forall>x\<in>set sus1. isTraining x" by simp_all
      show ?thesis
      proof (cases r)
        case (Inl e)
        with Suc.prems(2) True inner b have "s' = s1" "suspended = sus1" by simp_all
        with f1 fs show ?thesis by simp
      next
        case (Inr losses)
        obtain ls ld where l: "losses = (ls, ld)" by (cases losses)
        obtain c2 s2 sus2 where rest:
          "epoch_loop tf fuel userIndices itemIndices numBatches epoch (batch + 1)
             (jadd lossSimple ls) (jadd lossDeep ld) s1 = (c2, s2, sus2)"
          by (cases "epoch_loop tf fuel userIndices itemIndices numBatches epoch (batch + 1)
             (jadd lossSimple ls) (jadd lossDeep ld) s1")
        from Suc.IH[OF f1 rest] have f2: "isTraining s2" and fs2: "\<forall>x\<in>set sus2. isTraining x"
          by simp_all
        from Suc.prems(2) True inner b Inr l rest
        have "s' = s2" "suspended = sus1 @ sus2" by simp_all
        with f2 fs fs2 show ?thesis by auto
      qed
    qed
  qed
qed

lemma isTraining_visualizeEmbeddings: "isTraining (visualizeEmbeddings s) = isTraining s"
  by (simp add: visualizeEmbeddings_def Let_def split: option.splits sum.splits)

lemma train_guarded: "isTraining s \<Longrightarrow> train tf fuel s = (Returned, s, [])"
  by (simp add: train_def)

lemma train_flag:
  assumes n: "\<not> isTraining s" and t: "train tf fuel s = (c, s', suspended)"
  shows "(\<forall>x\<in>set suspended. isTraining x) \<and> (isTraining s' \<longleftrightarrow> c \<noteq> Returned)"
proof -
  let ?s1 = "s\<lparr>isTraining := True, trainDisabled := True, lossHistory := [],
                statusText := InitializingModels\<rparr>"
  let ?s2 = "?s1\<lparr>simpleModel :=
                       Some (set_optimizerRate (learningRate (config ?s1))
                               (new_SimpleTwoTowerModel tf (map_size (userMap ?s1))
                                  (map_size (itemMap ?s1)) (embeddingDim (config ?s1))))\<rparr>"
  have f2: "isTraining ?s2" by simp
  show ?thesis
  proof (cases "interactions ?s2")
    case Nil
    with n t have "c = Threw TypeError" "s' = ?s2" "suspended = []"
      by (simp_all add: train_def)
    then show ?thesis by simp
  next
    case (Cons i0 rest)
    show ?thesis
    proof (cases "getUserFeatures ?s2 (userId i0)")
      case (Inl e)
      with n t Cons have "c = Threw e" "s' = ?s2" "suspended = []"
        by (simp_all add: train_def)
      then show ?thesis by simp
    next
      case (Inr userFeatures)
      show ?thesis
      proof (cases "map_get (items ?s2) (itemId i0)")
        case None
        with n t Cons Inr have "c = Threw TypeError" "s' = ?s2" "suspended = []"
          by (simp_all add: train_def)
        then show ?thesis by simp
      next
        case (Some it)
        show ?thesis
        proof (cases "new_DeepTwoTowerModel tf (map_size (userMap ?s2)) (map_size (itemMap ?s2))
                   (embeddingDim (config ?s2)) (length userFeatures) (length (genres it))
                   [64, embeddingDim (config ?s2)]")
          case (Inl e)
          with n t Cons Inr Some have "c = Threw e" "s' = ?s2" "suspended = []"
            by (simp_all add: train_def)
          then show ?thesis by simp
        next
          case dm: (Inr dm)
          let ?s3 = "?s2\<lparr>deepModel := Some (set_optimizerRate (learningRate (config ?s2)) dm)\<rparr>"
          let ?us = "map (\<lambda>i. map_get (userMap ?s3) (userId i)) (interactions ?s3)"
          let ?is = "map (\<lambda>i. map_get (itemMap ?s3) (itemId i)) (interactions ?s3)"
          let ?s4 = "?s3\<lparr>statusText := StartingTraining\<rparr>"
          let ?nb = "jceil (jdiv (Fin (of_nat (length ?us))) (Fin (of_nat (batchSize (config ?s4)))))"
          obtain c5 s5 sus5 where l: "epoch_loop tf fuel ?us ?is ?nb 0 0 (Fin 0) (Fin 0) ?s4 = (c5, s5, sus5)"
            by (cases "epoch_loop tf fuel ?us ?is ?nb 0 0 (Fin 0) (Fin 0) ?s4")
          have f4: "isTraining ?s4" by simp
          from epoch_loop_flag[OF f4 l] have f5: "isTraining s5" and fs: "\<forall>x\<in>set sus5. isTraining x"
            by simp_all
          have tr: "train tf fuel s =
                 (case (c5, s5, sus5) of
                    (Returned, s5, suspended) \<Rightarrow>
                      (Returned,
                       visualizeEmbeddings
                         (s5\<lparr>isTraining := False, trainDisabled := False, testDisabled := False,
                             statusText := TrainingCompleted\<rparr>),
                       suspended)
                  | (c, s5, suspended) \<Rightarrow> (c, s5, suspended))"
            using n Cons Inr Some dm l by (simp add: train_def Let_def del: jdiv.simps jceil.simps)
          show ?thesis
          proof (cases c5)
            case Returned
            with tr t have "c = Returned" "suspended = sus5"
              "s' = visualizeEmbeddings
                         (s5\<lparr>isTraining := False, trainDisabled := False, testDisabled := False,
                             statusText := TrainingCompleted\<rparr>)"
              by simp_all
            with fs show ?thesis by (simp add: isTraining_visualizeEmbeddings)
          next
            case (Threw e)
            with tr t have "c = Threw e" "suspended = sus5" "s' = s5" by simp_all
            with fs f5 show ?thesis by simp
          next
            case StillRunning
            with tr t have "c = StillRunning" "suspended = sus5" "s' = s5" by simp_all
            with fs f5 show ?thesis by simp
          qed
        qed
      qed
    qed
  qed
qed

text \<open>
  Claim C9. A call of \<open>train\<close> that finds the flag set returns at once, with no exception
  and with the state as it was: no model is made, the loss history is not cleared, no
  training step runs and the call is never suspended. A call that finds the flag clear
  has set it before its first \<open>await\<close> and keeps it set in every state in which it is
  suspended, so that a second call started in any of these states, with whatever fuel,
  returns at once in this way; and the flag is clear again when the call is over exactly
  when the call has returned: after an exception it stays set.
\<close>

theorem train_reentrancy:
  "(isTraining s \<longrightarrow> train tf fuel s = (Returned, s, [])) \<and>
   (\<not> isTraining s \<longrightarrow> train tf fuel s = (c, s', suspended) \<longrightarrow>
      (\<forall>x\<in>set suspended. isTraining x \<and> train tf fuel' x = (Returned, x, [])) \<and>
      (isTraining s' \<longleftrightarrow> c \<noteq> Returned))"
  using train_guarded train_flag by blast

section \<open>Ranking the candidates\<close>






text \<open>
  The call itself: each of the two embeddings has been released when \<open>await\<close> delivers
  it, and the first operation on the user embedding throws. So for every state, model,
  user and exclusion set the result is an exception.
\<close>

lemma getRecommendations_throws:
  "\<exists>e. getRecommendations s m uid userIndex ratedItemIds = Inl e"
  by (simp add: getRecommendations_def and_then_def tf_tidy_async_def tf_tidy_def tensor_of_def
        Let_def split: sum.splits model.splits)


section \<open>The forward passes of the deep model\<close>





















section \<open>What loadData does with damaged input\<close>

lemmas parse_defs = parseInt_def parseFloat_def js_ToString_def js_trimStart_def js_isspace_def
  strip_sign_def is_digit_def digits_value_def digit_val_def signed_def exponent_part_def pow10_def js_nth_def

lemma parseInt_undefined: "parseInt None = NaN"
  by (simp add: parse_defs)

lemma parseFloat_undefined: "parseFloat None = NaN"
  by (simp add: parse_defs)

lemma length_parseInteractions:
  "length (parseInteractions n txt) = min n (length (js_split (CHR 0x0A) (js_trim txt)))"
  by (simp add: parseInteractions_def min.commute)

lemma short_line_timestamp:
  "length (js_split (CHR 0x09) line) < 4 \<Longrightarrow> timestamp (parseInteractionLine line) = NaN"
  by (simp add: parseInteractionLine_def Let_def js_nth_def parseInt_undefined)

lemma js_split_nonempty: "js_split sep str \<noteq> []"
  by (induction str) (auto split: list.splits)

lemma strip_sign_subset: "set (snd (strip_sign str)) \<subseteq> set str"
  by (auto simp: strip_sign_def split: list.splits if_splits)

lemma takeWhile_none: "\<forall>c\<in>set str. \<not> P c \<Longrightarrow> takeWhile P str = []"
  by (cases str) auto

lemma parseInt_no_digit:
  assumes "\<forall>c\<in>set f. \<not> is_digit 10 c"
  shows "parseInt (Some f) = NaN"
proof -
  obtain neg s1 where s: "strip_sign (js_trimStart f) = (neg, s1)"
    by (cases "strip_sign (js_trimStart f)")
  have "set s1 \<subseteq> set (js_trimStart f)" using strip_sign_subset[of "js_trimStart f"] s by simp
  also have "\<dots> \<subseteq> set f" by (auto simp: js_trimStart_def dest: set_dropWhileD)
  finally have nd: "\<forall>c\<in>set s1. \<not> is_digit 10 c" using assms by blast
  have z: "CHR ''0'' \<notin> set s1" using nd by (auto simp: is_digit_def)
  have pre: "(case s1 of
                c0 # cx # r \<Rightarrow>
                  if c0 = CHR ''0'' \<and> (cx = CHR ''x'' \<or> cx = CHR ''X'') then (16::nat, r) else (10, s1)
              | _ \<Rightarrow> (10, s1)) = (10, s1)"
    using z by (auto split: list.splits)
  have "takeWhile (is_digit 10) s1 = []" using nd by (rule takeWhile_none)
  then show ?thesis by (simp add: parseInt_def js_ToString_def s pre)
qed

lemma userId_no_digit:
  assumes "\<forall>c\<in>set (hd (js_split (CHR 0x09) line)). \<not> is_digit 10 c"
  shows "userId (parseInteractionLine line) = NaN"
proof -
  have "js_nth (js_split (CHR 0x09) line) 0 = Some (hd (js_split (CHR 0x09) line))"
    using js_split_nonempty[of "CHR 0x09" line] by (cases "js_split (CHR 0x09) line") (simp_all add: js_nth_def)
  then show ?thesis using parseInt_no_digit[OF assms] by (simp add: parseInteractionLine_def Let_def)
qed

lemma interactions_loadData:
  "interactions (loadData (Fetched txt im us) s) = parseInteractions (maxInteractions (config s)) txt"
proof -
  obtain err its where p: "parseItems (js_split (CHR 0x0A) (js_trim im)) (items s) = (err, its)"
    by (cases "parseItems (js_split (CHR 0x0A) (js_trim im)) (items s)")
  obtain u occs where q: "fold parseUserLine (js_split (CHR 0x0A) (js_trim us)) (users s, []) = (u, occs)"
    by (cases "fold parseUserLine (js_split (CHR 0x0A) (js_trim us)) (users s, [])")
  show ?thesis
  proof (cases err)
    case None
    show ?thesis unfolding loadData_success[OF p[unfolded None] q]
      by (simp add: findQualifiedUsers_def interactions_createMappings)
  next
    case (Some e)
    show ?thesis unfolding loadData_items_error[OF p[unfolded Some]] by simp
  qed
qed

lemma statusText_loadData_success:
  assumes "fst (parseItems (js_split (CHR 0x0A) (js_trim im)) (items s)) = None"
  shows "\<exists>a b c. statusText (loadData (Fetched txt im us) s) = Loaded a b c"
proof -
  obtain its where p: "parseItems (js_split (CHR 0x0A) (js_trim im)) (items s) = (None, its)"
    using assms by (cases "parseItems (js_split (CHR 0x0A) (js_trim im)) (items s)") simp
  obtain u occs where q: "fold parseUserLine (js_split (CHR 0x0A) (js_trim us)) (users s, []) = (u, occs)"
    by (cases "fold parseUserLine (js_split (CHR 0x0A) (js_trim us)) (users s, [])")
  show ?thesis unfolding loadData_success[OF p q] by simp
qed

text \<open>
  Claim C3, as the code has it. Parsing the interaction text raises nothing and skips
  nothing: it yields one record for each line of the trimmed text, up to the cap. A line
  of fewer than four fields has the timestamp \<open>NaN\<close>, a line whose first field holds no
  decimal digit has the user id \<open>NaN\<close>. These records become the interactions store
  whatever else happens in the load, and the load ends with the status of success
  whenever the item lines parse.
\<close>

theorem malformed_interactions_parse:
  "length (parseInteractions n txt) = min n (length (js_split (CHR 0x0A) (js_trim txt))) \<and>
   (length (js_split (CHR 0x09) line) < 4 \<longrightarrow> timestamp (parseInteractionLine line) = NaN) \<and>
   ((\<forall>c\<in>set (hd (js_split (CHR 0x09) line)). \<not> is_digit 10 c) \<longrightarrow>
      userId (parseInteractionLine line) = NaN) \<and>
   interactions (loadData (Fetched txt im us) s) = parseInteractions (maxInteractions (config s)) txt \<and>
   (fst (parseItems (js_split (CHR 0x0A) (js_trim im)) (items s)) = None \<longrightarrow>
      (\<exists>a b c. statusText (loadData (Fetched txt im us) s) = Loaded a b c))"
  using length_parseInteractions short_line_timestamp userId_no_digit interactions_loadData
    statusText_loadData_success by blast

text \<open>
  Claim C4, as the code has it. A load that raises ends with the error as its one status
  text. When a fetch is rejected, nothing else in the state changes. When an item line
  throws, the interactions store already holds the newly parsed sequence and the items
  table the items of the lines before that one; every other store is as it was. When no
  item line throws, the load ends with the status of success.
\<close>

theorem loadData_error_state:
  "loadData (FetchFailed fe) s = s\<lparr>statusText := ErrorLoadingData fe\<rparr> \<and>
   (parseItems (js_split (CHR 0x0A) (js_trim im)) (items s) = (Some e, its) \<longrightarrow>
      loadData (Fetched it im us) s =
        s\<lparr>interactions := parseInteractions (maxInteractions (config s)) it,
          items := its, statusText := ErrorLoadingData e\<rparr>) \<and>
   (fst (parseItems (js_split (CHR 0x0A) (js_trim im)) (items s)) = None \<longrightarrow>
      (\<exists>a b c. statusText (loadData (Fetched it im us) s) = Loaded a b c))"
  using loadData_FetchFailed loadData_items_error statusText_loadData_success by blast

section \<open>The concrete inputs, evaluated\<close>

lemma lines_malformed_interactions:
  "js_split (CHR 0x0A) (js_trim malformed_interactions) =
     [join (CHR 0x09) [''abc'', ''1'', ''5'', ''100''], join (CHR 0x09) [''7'', ''8'']]"
  by (simp add: malformed_interactions_def tsv_def join_def js_trim_def js_isspace_def)

lemma fields_malformed:
  "js_split (CHR 0x09) (join (CHR 0x09) [''abc'', ''1'', ''5'', ''100'']) = [''abc'', ''1'', ''5'', ''100'']"
  "js_split (CHR 0x09) (join (CHR 0x09) [''7'', ''8'']) = [''7'', ''8'']"
  by (simp_all add: join_def)

lemma parse_malformed_interactions:
  "parseInteractions 80000 malformed_interactions =
     [\<lparr>userId = NaN, itemId = Fin 1, rating = Fin 5, timestamp = Fin 100\<rparr>,
      \<lparr>userId = Fin 7, itemId = Fin 8, rating = NaN, timestamp = NaN\<rparr>]"
  by (simp add: parseInteractions_def lines_malformed_interactions parseInteractionLine_def fields_malformed)
     (simp add: parse_defs)

lemma lines_good_interactions:
  "js_split (CHR 0x0A) (js_trim good_interactions) =
     [join (CHR 0x09) [''1'', ''1'', ''5'', ''100''], join (CHR 0x09) [''1'', ''2'', ''3'', ''101'']]"
  by (simp add: good_interactions_def tsv_def join_def js_trim_def js_isspace_def)

lemma parse_good_interactions:
  "parseInteractions 80000 good_interactions =
     [\<lparr>userId = Fin 1, itemId = Fin 1, rating = Fin 5, timestamp = Fin 100\<rparr>,
      \<lparr>userId = Fin 1, itemId = Fin 2, rating = Fin 3, timestamp = Fin 101\<rparr>]"
  by (simp add: parseInteractions_def lines_good_interactions parseInteractionLine_def join_def)
     (simp add: parse_defs)

lemma yearMatch_toy: "yearMatch ''Toy Story (1995)'' = Some ''1995''"
  by (simp add: yearMatch_def is_digit_def)

lemma parse_toy_line:
  "parseItemLine ''1|Toy Story (1995)|01-Jan-1995||http://a|0|0|0|1|1|1'' =
     Inr (Fin 1, \<lparr>title = ''Toy Story'', year = Some (Fin 1995),
                   genres = [Fin 0, Fin 0, Fin 0, Fin 1, Fin 1, Fin 1]\<rparr>)"
  by (simp add: parseItemLine_def stripYear_def yearMatch_toy js_trim_def parse_defs)

lemma parse_line_without_separator: "parseItemLine ''GoldenEye'' = Inl TypeError"
  by (simp add: parseItemLine_def js_nth_def)

lemma lines_good_items:
  "js_split (CHR 0x0A) (js_trim good_items) = [''1|Toy Story (1995)|01-Jan-1995||http://a|0|0|0|1|1|1'']"
  by (simp add: good_items_def psv_def join_def js_trim_def js_isspace_def)

lemma lines_broken_items:
  "js_split (CHR 0x0A) (js_trim broken_items) =
     [''1|Toy Story (1995)|01-Jan-1995||http://a|0|0|0|1|1|1'', ''GoldenEye'']"
  by (simp add: broken_items_def psv_def join_def js_trim_def js_isspace_def)

lemma parse_good_items:
  "parseItems (js_split (CHR 0x0A) (js_trim good_items)) [] =
     (None, [(Fin 1, \<lparr>title = ''Toy Story'', year = Some (Fin 1995),
                       genres = [Fin 0, Fin 0, Fin 0, Fin 1, Fin 1, Fin 1]\<rparr>)])"
  by (simp add: lines_good_items parse_toy_line)

lemma parse_broken_items:
  "parseItems (js_split (CHR 0x0A) (js_trim broken_items)) [] =
     (Some TypeError, [(Fin 1, \<lparr>title = ''Toy Story'', year = Some (Fin 1995),
                                 genres = [Fin 0, Fin 0, Fin 0, Fin 1, Fin 1, Fin 1]\<rparr>)])"
  by (simp add: lines_broken_items parse_toy_line parse_line_without_separator)

lemma parse_good_users:
  "fold parseUserLine (js_split (CHR 0x0A) (js_trim good_users)) ([], []) =
     ([(Fin 1, \<lparr>age = Fin (6 / 25), gender = 1, occupation = Some ''technician''\<rparr>)],
      [Some ''technician''])"
  by (simp add: good_users_def psv_def join_def js_trim_def js_isspace_def parseUserLine_def set_add_def
        Let_def)
     (simp add: parse_defs)

lemma new_app_fields:
  "interactions (new_app a b) = []" "items (new_app a b) = []" "users (new_app a b) = []"
  "occupationVocab (new_app a b) = []" "userMap (new_app a b) = []" "itemMap (new_app a b) = []"
  "maxInteractions (config (new_app a b)) = 80000"
  by (simp_all add: new_app_def)

text \<open>An interaction file with a non-numeric user id and a line of two fields loads with
  the status of success, and the store holds the two records with \<open>NaN\<close> fields.\<close>

theorem malformed_interactions_counterexample:
  "statusText (loadData (Fetched malformed_interactions good_items good_users) (new_app True True :: unit app))
     = Loaded 2 1 1 \<and>
   interactions (loadData (Fetched malformed_interactions good_items good_users) (new_app True True :: unit app))
     = [\<lparr>userId = NaN, itemId = Fin 1, rating = Fin 5, timestamp = Fin 100\<rparr>,
        \<lparr>userId = Fin 7, itemId = Fin 8, rating = NaN, timestamp = NaN\<rparr>]"
proof -
  have p: "parseItems (js_split (CHR 0x0A) (js_trim good_items)) (items (new_app True True :: unit app)) =
             (None, [(Fin 1, \<lparr>title = ''Toy Story'', year = Some (Fin 1995),
                               genres = [Fin 0, Fin 0, Fin 0, Fin 1, Fin 1, Fin 1]\<rparr>)])"
    by (simp add: new_app_fields parse_good_items)
  have q: "fold parseUserLine (js_split (CHR 0x0A) (js_trim good_users)) (users (new_app True True :: unit app), []) =
             ([(Fin 1, \<lparr>age = Fin (6 / 25), gender = 1, occupation = Some ''technician''\<rparr>)],
              [Some ''technician''])"
    by (simp add: new_app_fields parse_good_users)
  show ?thesis
    unfolding loadData_success[OF p q]
    by (simp add: new_app_fields parse_malformed_interactions findQualifiedUsers_def
          interactions_createMappings map_size_def)
qed

text \<open>The same file, line by line.\<close>

theorem malformed_interactions_parse_witness:
  "length (parseInteractions 80000 malformed_interactions) = 2 \<and>
   length (js_split (CHR 0x09) (join (CHR 0x09) [''7'', ''8''])) < 4 \<and>
   timestamp (parseInteractionLine (join (CHR 0x09) [''7'', ''8''])) = NaN \<and>
   list_all (\<lambda>c. \<not> is_digit 10 c)
     (hd (js_split (CHR 0x09) (join (CHR 0x09) [''abc'', ''1'', ''5'', ''100'']))) \<and>
   userId (parseInteractionLine (join (CHR 0x09) [''abc'', ''1'', ''5'', ''100''])) = NaN \<and>
   fst (parseItems (js_split (CHR 0x0A) (js_trim good_items)) (items (new_app True True :: unit app))) = None \<and>
   (\<exists>a b c. statusText (loadData (Fetched malformed_interactions good_items good_users)
                          (new_app True True :: unit app)) = Loaded a b c)"
proof -
  have h1: "length (js_split (CHR 0x09) (join (CHR 0x09) [''7'', ''8''])) < 4"
    by (simp add: fields_malformed)
  have h2: "\<forall>c\<in>set (hd (js_split (CHR 0x09) (join (CHR 0x09) [''abc'', ''1'', ''5'', ''100'']))). \<not> is_digit 10 c"
    by (simp add: fields_malformed is_digit_def)
  have h3: "fst (parseItems (js_split (CHR 0x0A) (js_trim good_items)) (items (new_app True True :: unit app))) = None"
    by (simp add: new_app_fields parse_good_items)
  have l: "min 80000 (length (js_split (CHR 0x0A) (js_trim malformed_interactions))) = 2"
    by (simp add: lines_malformed_interactions)
  show ?thesis
    using malformed_interactions_parse[of 80000 malformed_interactions "join (CHR 0x09) [''7'', ''8'']"
            good_items good_users "new_app True True :: unit app"]
          malformed_interactions_parse[of 80000 malformed_interactions
            "join (CHR 0x09) [''abc'', ''1'', ''5'', ''100'']" good_items good_users
            "new_app True True :: unit app"]
          h1 h2 h3 l
    by (simp add: list_all_iff)
qed

text \<open>An item file whose second line has no separator: the load reports the TypeError,
  and the interactions and items stores, empty before, are not empty after.\<close>

theorem loadData_rollback_counterexample:
  "statusText (loadData (Fetched good_interactions broken_items good_users) (new_app True True :: unit app))
     = ErrorLoadingData TypeError \<and>
   interactions (new_app True True :: unit app) = [] \<and>
   interactions (loadData (Fetched good_interactions broken_items good_users) (new_app True True :: unit app))
     = [\<lparr>userId = Fin 1, itemId = Fin 1, rating = Fin 5, timestamp = Fin 100\<rparr>,
        \<lparr>userId = Fin 1, itemId = Fin 2, rating = Fin 3, timestamp = Fin 101\<rparr>] \<and>
   items (new_app True True :: unit app) = [] \<and>
   items (loadData (Fetched good_interactions broken_items good_users) (new_app True True :: unit app))
     = [(Fin 1, \<lparr>title = ''Toy Story'', year = Some (Fin 1995),
                   genres = [Fin 0, Fin 0, Fin 0, Fin 1, Fin 1, Fin 1]\<rparr>)]"
proof -
  have p: "parseItems (js_split (CHR 0x0A) (js_trim broken_items)) (items (new_app True True :: unit app)) =
             (Some TypeError, [(Fin 1, \<lparr>title = ''Toy Story'', year = Some (Fin 1995),
                               genres = [Fin 0, Fin 0, Fin 0, Fin 1, Fin 1, Fin 1]\<rparr>)])"
    by (simp add: new_app_fields parse_broken_items)
  show ?thesis
    unfolding loadData_items_error[OF p]
    by (simp add: new_app_fields parse_good_interactions)
qed

text \<open>The three cases on the concrete files.\<close>

theorem loadData_error_state_witness:
  "parseItems (js_split (CHR 0x0A) (js_trim broken_items)) (items (new_app True True :: unit app)) =
     (Some TypeError, [(Fin 1, \<lparr>title = ''Toy Story'', year = Some (Fin 1995),
                                 genres = [Fin 0, Fin 0, Fin 0, Fin 1, Fin 1, Fin 1]\<rparr>)]) \<and>
   users (loadData (Fetched good_interactions broken_items good_users) (new_app True True :: unit app)) = [] \<and>
   statusText (loadData (Fetched good_interactions broken_items good_users) (new_app True True :: unit app))
     = ErrorLoadingData TypeError \<and>
   fst (parseItems (js_split (CHR 0x0A) (js_trim good_items)) (items (new_app True True :: unit app))) = None \<and>
   (\<exists>a b c. statusText (loadData (Fetched good_interactions good_items good_users)
                          (new_app True True :: unit app)) = Loaded a b c) \<and>
   loadData (FetchFailed NetworkError) (new_app True True :: unit app) =
     (new_app True True)\<lparr>statusText := ErrorLoadingData NetworkError\<rparr>"
proof -
  have p: "parseItems (js_split (CHR 0x0A) (js_trim broken_items)) (items (new_app True True :: unit app)) =
             (Some TypeError, [(Fin 1, \<lparr>title = ''Toy Story'', year = Some (Fin 1995),
                               genres = [Fin 0, Fin 0, Fin 0, Fin 1, Fin 1, Fin 1]\<rparr>)])"
    by (simp add: new_app_fields parse_broken_items)
  have h: "fst (parseItems (js_split (CHR 0x0A) (js_trim good_items)) (items (new_app True True :: unit app))) = None"
    by (simp add: new_app_fields parse_good_items)
  show ?thesis
    using loadData_error_state[where fe = NetworkError and e = TypeError and s = "new_app True True :: unit app"
            and im = broken_items and it = good_interactions and us = good_users
            and its = "[(Fin 1, \<lparr>title = ''Toy Story'', year = Some (Fin 1995),
                        genres = [Fin 0, Fin 0, Fin 0, Fin 1, Fin 1, Fin 1]\<rparr>)]"]
          loadData_error_state[where fe = NetworkError and e = TypeError and s = "new_app True True :: unit app"
            and im = good_items and it = good_interactions and us = good_users and its = "[]"]
          p h
    by (simp add: new_app_fields)
qed

lemmas mapping_defs = createMappings_def set_from_def set_add_def forEach_indexed_def set_both_def
  push_interaction_def map_has_def map_get_def js_sort_def cmpTopRated_def jor_def Let_def



lemma userTopRated_scenario: "userTopRated (createMappings scenario_app) =
   [(Fin 1, [\<lparr>userId = Fin 1, itemId = Fin 1, rating = Fin 5, timestamp = Fin 100\<rparr>,
             \<lparr>userId = Fin 1, itemId = Fin 2, rating = Fin 3, timestamp = Fin 101\<rparr>]),
    (Fin 2, [\<lparr>userId = Fin 2, itemId = Fin 1, rating = Fin 4, timestamp = Fin 102\<rparr>])]"
  by (simp add: scenario_app_def scenario_interactions_def new_app_def mapping_defs)







text \<open>The scenario of three interactions: both maps have size 2, and user 2 and item 2
  make the round trip.\<close>

theorem createMappings_bijection_witness:
  "userMap scenario_app = [] \<and> itemMap scenario_app = [] \<and>
   Fin 2 \<in> set (map userId (interactions scenario_app)) \<and>
   (\<exists>i. map_get (userMap (createMappings scenario_app)) (Fin 2) = Some i \<and>
        map_get (reverseUserMap (createMappings scenario_app)) i = Some (Fin 2)) \<and>
   Fin 2 \<in> set (map itemId (interactions scenario_app)) \<and>
   (\<exists>i. map_get (itemMap (createMappings scenario_app)) (Fin 2) = Some i \<and>
        map_get (reverseItemMap (createMappings scenario_app)) i = Some (Fin 2)) \<and>
   map_size (userMap (createMappings scenario_app)) = 2 \<and>
   map_size (itemMap (createMappings scenario_app)) = 2"
proof -
  have e: "userMap scenario_app = []" "itemMap scenario_app = []"
    by (simp_all add: scenario_app_def new_app_def)
  have u: "set (map userId (interactions scenario_app)) = {Fin 1, Fin 2}"
    and i: "set (map itemId (interactions scenario_app)) = {Fin 1, Fin 2}"
    by (auto simp: scenario_app_def scenario_interactions_def)
  have c: "card {Fin 1, Fin 2} = 2" by simp
  show ?thesis
    using createMappings_bijection[of scenario_app] e
    unfolding Let_def u i c by simp
qed

text \<open>In the scenario, the history of user 1 is the rating 5 before the rating 3.\<close>

theorem userTopRated_sorted_witness:
  "list_all (\<lambda>i. rating i \<noteq> NaN \<and> timestamp i \<noteq> NaN) (interactions scenario_app) \<and>
   (Fin 1, [\<lparr>userId = Fin 1, itemId = Fin 1, rating = Fin 5, timestamp = Fin 100\<rparr>,
            \<lparr>userId = Fin 1, itemId = Fin 2, rating = Fin 3, timestamp = Fin 101\<rparr>])
     \<in> set (userTopRated (createMappings scenario_app)) \<and>
   sorted_wrt (\<lambda>a b. jge (rating a) (rating b) \<and>
                      (rating a = rating b \<longrightarrow> jge (timestamp a) (timestamp b)))
     [\<lparr>userId = Fin 1, itemId = Fin 1, rating = Fin 5, timestamp = Fin 100\<rparr>,
      \<lparr>userId = Fin 1, itemId = Fin 2, rating = Fin 3, timestamp = Fin 101\<rparr>]"
proof -
  have h: "\<forall>i\<in>set (interactions scenario_app). rating i \<noteq> NaN \<and> timestamp i \<noteq> NaN"
    by (simp add: scenario_app_def scenario_interactions_def)
  have m: "(Fin 1, [\<lparr>userId = Fin 1, itemId = Fin 1, rating = Fin 5, timestamp = Fin 100\<rparr>,
                    \<lparr>userId = Fin 1, itemId = Fin 2, rating = Fin 3, timestamp = Fin 101\<rparr>])
             \<in> set (userTopRated (createMappings scenario_app))"
    by (simp add: userTopRated_scenario)
  have srt: "sorted_wrt (\<lambda>a b. jge (rating a) (rating b) \<and>
                      (rating a = rating b \<longrightarrow> jge (timestamp a) (timestamp b)))
     [\<lparr>userId = Fin 1, itemId = Fin 1, rating = Fin 5, timestamp = Fin 100\<rparr>,
      \<lparr>userId = Fin 1, itemId = Fin 2, rating = Fin 3, timestamp = Fin 101\<rparr>]"
    using userTopRated_sorted[of scenario_app] m by fastforce
  from srt m h show ?thesis by (simp add: list_all_iff)
qed

text \<open>The boundary: the user with exactly 20 interactions qualifies, the user with 19
  does not.\<close>

theorem qualifiedUsers_iff_count_witness:
  "length (filter (\<lambda>i. userId i = Fin 1) (interactions boundary_app)) = 20 \<and>
   Fin 1 \<in> set (qualifiedUsers (findQualifiedUsers (createMappings boundary_app))) \<and>
   length (filter (\<lambda>i. userId i = Fin 2) (interactions boundary_app)) = 19 \<and>
   Fin 2 \<notin> set (qualifiedUsers (findQualifiedUsers (createMappings boundary_app)))"
proof -
  have a: "length (filter (\<lambda>i. userId i = Fin 1) (interactions boundary_app)) = 20"
    and b: "length (filter (\<lambda>i. userId i = Fin 2) (interactions boundary_app)) = 19"
    by (simp_all add: boundary_app_def)
  show ?thesis
    using qualifiedUsers_iff_count[of "Fin 1" boundary_app] qualifiedUsers_iff_count[of "Fin 2" boundary_app]
    unfolding a b by simp
qed

text \<open>A technician against the vocabulary of artist and engineer: four entries, the last
  two zero.\<close>

theorem getUserFeatures_length_witness:
  "vocab_ok (occupationVocab vocab_app) \<and>
   map_get (users vocab_app) (Fin 1) =
     Some \<lparr>age = Fin (6 / 25), gender = 1, occupation = Some ''technician''\<rparr> \<and>
   map_get (occupationVocab vocab_app) (Some ''technician'') = None \<and>
   map_size (occupationVocab vocab_app) = 2 \<and>
   (\<exists>v. getUserFeatures vocab_app (Fin 1) = Inr v \<and> length v = 4 \<and>
        drop 2 v = [Some (Fin 0), Some (Fin 0)])"
proof -
  have ok: "vocab_ok (occupationVocab vocab_app)"
    by (simp add: vocab_app_def vocab_ok_def map_size_def)
  have u: "map_get (users vocab_app) (Fin 1) =
             Some \<lparr>age = Fin (6 / 25), gender = 1, occupation = Some ''technician''\<rparr>"
    by (simp add: vocab_app_def map_get_def)
  have n: "map_get (occupationVocab vocab_app) (Some ''technician'') = None"
    by (simp add: vocab_app_def map_get_def)
  have sz: "map_size (occupationVocab vocab_app) = 2"
    by (simp add: vocab_app_def map_size_def)
  have r: "replicate 2 (Some (Fin 0)) = [Some (Fin 0), Some (Fin 0)]"
    by (simp add: numeral_2_eq_2)
  from getUserFeatures_length[OF ok u] n ok u sz r show ?thesis by auto
qed

text \<open>In the state the constructor builds, no user has a record.\<close>

theorem getUserFeatures_missing_user_witness:
  "map_get (users (new_app True True :: unit app)) (Fin 1) = None \<and>
   getUserFeatures (new_app True True :: unit app) (Fin 1) = Inl TypeError"
proof -
  have h: "map_get (users (new_app True True :: unit app)) (Fin 1) = None"
    by (simp add: new_app_def map_get_def)
  from getUserFeatures_missing_user[OF h] h show ?thesis by simp
qed

section \<open>A training run, evaluated\<close>

lemma toy_app_fields:
  "isTraining toy_app = False"
  "interactions toy_app =
     [\<lparr>userId = Fin 1, itemId = Fin 1, rating = Fin 5, timestamp = Fin 100\<rparr>,
      \<lparr>userId = Fin 1, itemId = Fin 2, rating = Fin 3, timestamp = Fin 101\<rparr>,
      \<lparr>userId = Fin 2, itemId = Fin 1, rating = Fin 4, timestamp = Fin 102\<rparr>,
      \<lparr>userId = Fin 2, itemId = Fin 3, rating = Fin 2, timestamp = Fin 103\<rparr>]"
  "userMap toy_app = [(Fin 1, 0), (Fin 2, 1)]"
  "itemMap toy_app = [(Fin 1, 0), (Fin 2, 1), (Fin 3, 2)]"
  "reverseUserMap toy_app = [(0, Fin 1), (1, Fin 2)]"
  "reverseItemMap toy_app = [(0, Fin 1), (1, Fin 2), (2, Fin 3)]"
  "config toy_app = \<lparr>maxInteractions = 80000, embeddingDim = 2, batchSize = 2, epochs = 1,
                       learningRate = 1 / 1000\<rparr>"
  "occupationVocab toy_app = [(Some ''other'', 0), (Some ''technician'', 1)]"
  "users toy_app =
     [(Fin 1, \<lparr>age = Fin (6 / 25), gender = 1, occupation = Some ''technician''\<rparr>),
      (Fin 2, \<lparr>age = Fin (53 / 100), gender = 0, occupation = Some ''other''\<rparr>)]"
  "items toy_app =
     [(Fin 1, \<lparr>title = ''Toy Story'', year = Some (Fin 1995), genres = [Fin 0, Fin 1]\<rparr>),
      (Fin 2, \<lparr>title = ''GoldenEye'', year = Some (Fin 1995), genres = [Fin 1, Fin 0]\<rparr>),
      (Fin 3, \<lparr>title = ''Four Rooms'', year = Some (Fin 1995), genres = [Fin 0, Fin 0]\<rparr>)]"
  by (simp_all add: toy_app_def scenario_interactions_def new_app_def mapping_defs)

lemma trainStep_toy: "trainStep toy_tflib m us uf ids itf = Inr (Fin 1, m)"
  by (simp add: trainStep_def toy_tflib_def)

text \<open>Four interactions in batches of two, for one epoch: four units of fuel see the call
  return, after six suspensions.\<close>

lemma train_toy_outcome:
  "fst (train toy_tflib (Suc (Suc (Suc (Suc 0)))) toy_app) = Returned"
  "length (snd (snd (train toy_tflib (Suc (Suc (Suc (Suc 0)))) toy_app))) = 6"
  by (simp_all add: train_def toy_app_fields Let_def getUserFeatures_def map_get_def map_size_def
       js_array_set_def new_DeepTwoTowerModel_def train_batch_def trainStep_toy js_slice_def
       get_at_def getUserFeatures_of_def genres_of_def)

text \<open>That run: the flag is clear before and after, the call returns, and in each of the
  six states in which it was suspended the flag is set and a second call returns at
  once.\<close>

theorem train_reentrancy_witness:
  "\<not> isTraining toy_app \<and>
   fst (train toy_tflib (Suc (Suc (Suc (Suc 0)))) toy_app) = Returned \<and>
   length (snd (snd (train toy_tflib (Suc (Suc (Suc (Suc 0)))) toy_app))) = 6 \<and>
   list_all (\<lambda>x. isTraining x \<and> train toy_tflib (Suc (Suc (Suc (Suc 0)))) x = (Returned, x, []))
     (snd (snd (train toy_tflib (Suc (Suc (Suc (Suc 0)))) toy_app))) \<and>
   \<not> isTraining (fst (snd (train toy_tflib (Suc (Suc (Suc (Suc 0)))) toy_app)))"
proof -
  let ?run = "train toy_tflib (Suc (Suc (Suc (Suc 0)))) toy_app"
  have clear: "\<not> isTraining toy_app"
    by (simp add: toy_app_fields)
  have run: "?run = (fst ?run, fst (snd ?run), snd (snd ?run))"
    by simp
  have "(\<forall>x\<in>set (snd (snd ?run)).
           isTraining x \<and> train toy_tflib (Suc (Suc (Suc (Suc 0)))) x = (Returned, x, [])) \<and>
        (isTraining (fst (snd ?run)) \<longleftrightarrow> fst ?run \<noteq> Returned)"
    by (rule train_reentrancy
               [where fuel' = "Suc (Suc (Suc (Suc 0)))", THEN conjunct2, THEN mp, OF clear,
                THEN mp, OF run])
  then show ?thesis
    using clear by (simp add: list_all_iff train_toy_outcome)
qed

section \<open>The forward passes, evaluated\<close>













end
